theory Spec2Isabelle
  imports Main
begin

section \<open>JavaScript values\<close>

text \<open>
  The engine is written in TypeScript and passes untyped data (\<open>params: any\<close>, the result of
  \<open>JSON.parse\<close>, the answers of the connector clients) through property reads and truthiness
  tests. Such data is a \<open>jsval\<close>. An object value lists its own properties; the first
  binding of a key is the property's value (a key is meant to occur once). Numbers are the
  integers (JavaScript's doubles, and with them \<open>NaN\<close>, are outside the model).
\<close>

datatype jsval =
    JUndefined
  | JNull
  | JBool bool
  | JNum int
  | JStr string
  | JArr "jsval list"
  | JObj "(string \<times> jsval) list"

text \<open>What \<open>if (v)\<close>, \<open>!v\<close>, \<open>v && w\<close> and \<open>v || w\<close> test.\<close>

fun truthy :: "jsval \<Rightarrow> bool" where
  "truthy JUndefined = False"
| "truthy JNull = False"
| "truthy (JBool b) = b"
| "truthy (JNum n) = (n \<noteq> 0)"
| "truthy (JStr s) = (s \<noteq> [])"
| "truthy (JArr xs) = True"
| "truthy (JObj kvs) = True"

definition nullish :: "jsval \<Rightarrow> bool" where
  "nullish v = (v = JUndefined \<or> v = JNull)"

text \<open>
  An exception value: an \<open>Error\<close> object with its optional \<open>code\<close> (set by the file system
  functions of Node) and its \<open>message\<close>.
\<close>

datatype js_error = Error (err_code: "string option") (message: string)

text \<open>
  The \<open>TypeError\<close> of reading property \<open>k\<close> of \<open>null\<close> or \<open>undefined\<close>. The wording of the
  message is the engine's; nothing below depends on it.
\<close>

definition cannot_read :: "jsval \<Rightarrow> string \<Rightarrow> js_error" where
  "cannot_read v k =
     Error None (''Cannot read properties of '' @ (if v = JNull then ''null'' else ''undefined'')
                 @ '' (reading '' @ k @ '')'')"

text \<open>
  \<open>v.k\<close> for a name \<open>k\<close> that is no built-in property of strings, arrays, numbers or booleans
  (all the names read in this program are such): the own property of an object, \<open>undefined\<close>
  on every other value that is not \<open>null\<close> or \<open>undefined\<close>. \<open>js_get\<close> is used where the source
  has already tested the receiver to be truthy; \<open>read_prop\<close> is the read that can throw.
\<close>

fun js_get :: "jsval \<Rightarrow> string \<Rightarrow> jsval" where
  "js_get (JObj kvs) k = (case map_of kvs k of None \<Rightarrow> JUndefined | Some v \<Rightarrow> v)"
| "js_get v k = JUndefined"

definition read_prop :: "jsval \<Rightarrow> string \<Rightarrow> js_error + jsval" where
  "read_prop v k = (if nullish v then Inl (cannot_read v k) else Inr (js_get v k))"

text \<open>Optional chaining \<open>v?.k\<close>.\<close>

definition opt_chain :: "jsval \<Rightarrow> string \<Rightarrow> jsval" where
  "opt_chain v k = (if nullish v then JUndefined else js_get v k)"

subsection \<open>Strings\<close>

text \<open>
  \<open>s.startsWith(p)\<close> and \<open>s.includes(p)\<close>, on strings as lists of characters. Every pattern
  the program searches for is ASCII, so it occurs among the UTF-16 code units of a JavaScript
  string exactly where it occurs among the bytes of the same text.
\<close>

fun startsWith :: "string \<Rightarrow> string \<Rightarrow> bool" where
  "startsWith s [] = True"
| "startsWith [] (p # ps) = False"
| "startsWith (c # cs) (p # ps) = (c = p \<and> startsWith cs ps)"

fun str_includes :: "string \<Rightarrow> string \<Rightarrow> bool" where
  "str_includes [] p = (p = [])"
| "str_includes (c # cs) p = (startsWith (c # cs) p \<or> str_includes cs p)"

subsection \<open>Objects that are mutated: the store\<close>

text \<open>
  A parameter bag is a mutable object that several references may share, so it lives in a
  store: an object is the map of its own properties, a reference is an address, and a new
  object literal takes the next free address.
\<close>

type_synonym addr = nat
type_synonym jsobject = "string \<rightharpoonup> jsval"

record heap =
  objects :: "addr \<Rightarrow> jsobject"
  next_addr :: addr

definition obj_get :: "jsobject \<Rightarrow> string \<Rightarrow> jsval" where
  "obj_get obj k = (case obj k of None \<Rightarrow> JUndefined | Some v \<Rightarrow> v)"

definition get_param :: "heap \<Rightarrow> addr \<Rightarrow> string \<Rightarrow> jsval" where
  "get_param h a k = obj_get (objects h a) k"

definition set_param :: "heap \<Rightarrow> addr \<Rightarrow> string \<Rightarrow> jsval \<Rightarrow> heap" where
  "set_param h a k v = h\<lparr>objects := (objects h)(a := (objects h a)(k \<mapsto> v))\<rparr>"

definition new_object :: "heap \<Rightarrow> jsobject \<Rightarrow> addr \<times> heap" where
  "new_object h obj =
     (next_addr h, h\<lparr>objects := (objects h)(next_addr h := obj), next_addr := Suc (next_addr h)\<rparr>)"

text \<open>\<open>Object.assign(target, source)\<close> for a source that is an object value.\<close>

fun own_entries :: "jsval \<Rightarrow> (string \<times> jsval) list" where
  "own_entries (JObj kvs) = kvs"
| "own_entries v = []"

definition object_assign :: "heap \<Rightarrow> addr \<Rightarrow> jsval \<Rightarrow> heap" where
  "object_assign h a source = h\<lparr>objects := (objects h)(a := objects h a ++ map_of (own_entries source))\<rparr>"

section \<open>types.ts\<close>

text \<open>
  \<open>ToolCall\<close>: the capability name and a reference to the parameter bag. The two fields of a
  \<open>ToolCall\<close> object are never reassigned by the program, so a call is the pair of their
  values; what is shared and mutated is the object that \<open>params\<close> refers to. The type of
  \<open>params\<close> is \<open>any\<close> in the source; here it is always an object, the mapping from parameter
  names to values that a call carries. (On \<open>null\<close> or \<open>undefined\<close> the first read of a
  parameter in \<open>enforce\<close> would throw a \<open>TypeError\<close>; such calls are outside the model.)
\<close>

record ToolCall =
  tool :: string
  params :: addr

record EnforcementResult =
  original :: ToolCall
  enhanced :: ToolCall
  modifications :: "string list"
  enforce_pagination :: "bool option"
  chain_operations :: "ToolCall list option"

text \<open>
  \<open>ConnectorStatus\<close>. An optional field is \<open>None\<close> when the object has no such key; the
  identity facts are untyped values, and so is \<open>error\<close>, which holds whatever
  \<open>error.message\<close> was. (\<open>bot\<close> is written \<open>bot'\<close>.)
\<close>

datatype calibration_status = S_authenticated | S_failed | S_pending

record ConnectorStatus =
  status :: calibration_status
  user :: "jsval option"
  workspace :: "jsval option"
  team :: "jsval option"
  stats :: "jsval option"
  bot' :: "jsval option"
  error :: "jsval option"
  last_verified :: string

text \<open>The \<open>connectors\<close> object of a snapshot: one optional entry per connector.\<close>

record 'a connector_map =
  asana :: "'a option"
  linear :: "'a option"
  github :: "'a option"
  notion :: "'a option"

definition no_connectors :: "'a connector_map" where
  "no_connectors = \<lparr>asana = None, linear = None, github = None, notion = None\<rparr>"

text \<open>\<open>Object.values\<close> of it: the entries that are there, in the order of their insertion.\<close>

definition connector_values :: "'a connector_map \<Rightarrow> 'a list" where
  "connector_values c = List.map_filter (\<lambda>x. x) [asana c, linear c, github c, notion c]"

record CalibrationState =
  timestamp :: string
  connectors :: "ConnectorStatus connector_map"

datatype health = H_healthy | H_failed | H_warning

datatype overall_health = O_healthy | O_degraded | O_warning

record ConnectorHealth =
  health_status :: health
  latency_ms :: int
  last_check :: string
  health_error :: "string option"

record HealthStatus =
  health_timestamp :: string
  overall :: overall_health
  health_connectors :: "ConnectorHealth connector_map"

section \<open>state-manager.ts\<close>

text \<open>
  \<open>load\<close> reads the calibration file and parses it. The outcome of \<open>fs.readFile\<close> and the
  function \<open>JSON.parse\<close> are inputs of the model. An error whose code is \<open>ENOENT\<close> becomes
  \<open>null\<close>; every other error is thrown again.
\<close>

definition load :: "(js_error + string) \<Rightarrow> (string \<Rightarrow> js_error + jsval) \<Rightarrow> js_error + jsval" where
  "load readFile JSON_parse =
     (case (case readFile of Inl e \<Rightarrow> Inl e | Inr data \<Rightarrow> JSON_parse data) of
        Inr v \<Rightarrow> Inr v
      | Inl e \<Rightarrow> if err_code e = Some ''ENOENT'' then Inr JNull else Inl e)"

text \<open>
  The files the state manager touches (\<open>DataDir\<close> is the directory of the two JSON files),
  and what it asks of the outside: \<open>fs.mkdir\<close> and \<open>fs.writeFile\<close> answer \<open>None\<close> when they
  succeed and the error when they reject; \<open>JSON.stringify\<close> and \<open>yaml.dump\<close> return the text
  or throw. \<open>'st\<close> is the type of what is serialised.
\<close>

datatype fs_path = DataDir | CalibrationJson | CalibrationYaml | HealthJson

record 'st io =
  mkdir :: "fs_path \<Rightarrow> js_error option"
  writeFile :: "fs_path \<Rightarrow> string \<Rightarrow> js_error option"
  JSON_stringify :: "'st \<Rightarrow> js_error + string"
  yaml_dump :: "'st \<Rightarrow> js_error + string"

text \<open>What is written to the console (the texts without their pictograms).\<close>

datatype console_line = ConsoleLog string | ConsoleError string js_error

text \<open>\<open>exportYAML\<close>: its \<open>catch\<close> logs the error and throws nothing.\<close>

definition exportYAML ::
  "CalibrationState io \<Rightarrow> CalibrationState \<Rightarrow> (js_error + unit) \<times> console_line list" where
  "exportYAML env state =
     (case (case yaml_dump env state of
              Inl e \<Rightarrow> Some e
            | Inr yamlContent \<Rightarrow> writeFile env CalibrationYaml yamlContent) of
        None \<Rightarrow> (Inr (), [ConsoleLog ''YAML export created''])
      | Some e \<Rightarrow> (Inr (), [ConsoleError ''Failed to export YAML:'' e]))"

text \<open>
  \<open>save\<close>: the steps of the \<open>try\<close> block in order, each with what has been logged so far;
  the \<open>catch\<close> logs the error and throws it again.
\<close>

definition save_try ::
  "CalibrationState io \<Rightarrow> CalibrationState \<Rightarrow> (js_error + unit) \<times> console_line list" where
  "save_try env state =
     (case mkdir env DataDir of
        Some e \<Rightarrow> (Inl e, [])
      | None \<Rightarrow>
         (case JSON_stringify env state of
            Inl e \<Rightarrow> (Inl e, [])
          | Inr json \<Rightarrow>
             (case writeFile env CalibrationJson json of
                Some e \<Rightarrow> (Inl e, [])
              | None \<Rightarrow>
                 (case exportYAML env state of
                    (Inl e, out) \<Rightarrow> (Inl e, out)
                  | (Inr u, out) \<Rightarrow> (Inr (), out @ [ConsoleLog ''Calibration state saved''])))))"

definition save ::
  "CalibrationState io \<Rightarrow> CalibrationState \<Rightarrow> (js_error + unit) \<times> console_line list" where
  "save env state =
     (case save_try env state of
        (Inl e, out) \<Rightarrow> (Inl e, out @ [ConsoleError ''Failed to save calibration state:'' e])
      | (Inr u, out) \<Rightarrow> (Inr (), out))"

definition saveHealth ::
  "HealthStatus io \<Rightarrow> HealthStatus \<Rightarrow> (js_error + unit) \<times> console_line list" where
  "saveHealth env health =
     (case (case mkdir env DataDir of
              Some e \<Rightarrow> Some e
            | None \<Rightarrow>
               (case JSON_stringify env health of
                  Inl e \<Rightarrow> Some e
                | Inr json \<Rightarrow> writeFile env HealthJson json)) of
        None \<Rightarrow> (Inr (), [ConsoleLog ''Health status saved''])
      | Some e \<Rightarrow> (Inl e, [ConsoleError ''Failed to save health status:'' e]))"

text \<open>
  The two writes of \<open>save\<close> by themselves, for stating what \<open>save\<close> does with their
  failures. The primary write is the persistence of the snapshot as JSON: the data directory
  is made, the snapshot is serialised and the file is written. The export is the YAML
  dump and its file. Each gives the error of its first failing step, or \<open>None\<close>.
\<close>

definition primary_write :: "CalibrationState io \<Rightarrow> CalibrationState \<Rightarrow> js_error option" where
  "primary_write env state =
     (case mkdir env DataDir of
        Some e \<Rightarrow> Some e
      | None \<Rightarrow> (case JSON_stringify env state of
                   Inl e \<Rightarrow> Some e
                 | Inr json \<Rightarrow> writeFile env CalibrationJson json))"

definition export_write :: "CalibrationState io \<Rightarrow> CalibrationState \<Rightarrow> js_error option" where
  "export_write env state =
     (case yaml_dump env state of
        Inl e \<Rightarrow> Some e
      | Inr yamlContent \<Rightarrow> writeFile env CalibrationYaml yamlContent)"

section \<open>calibrator.ts\<close>

text \<open>
  The connector clients (\<open>./connectors/asana\<close>, \<open>linear\<close>, \<open>github\<close>, \<open>notion\<close>) are not among
  the source files, so the outcome of each of their calls is an input of the model: the
  value the call resolves to (\<open>Inr\<close>), or the value it rejects with (\<open>Inl\<close>). A rejection
  value is any value: an error object, but also a string, \<open>null\<close> or \<open>undefined\<close>.
\<close>

record clients =
  asana_getCurrentUser :: "jsval + jsval"
  asana_listWorkspaces :: "jsval + jsval"
  linear_getCurrentUser :: "jsval + jsval"
  linear_getTeams :: "jsval + jsval"
  github_getAuthenticatedUser :: "jsval + jsval"
  github_listRepositories :: "jsval + jsval"
  notion_getBotUser :: "jsval + jsval"

text \<open>
  An error object as a value (what the program reads of one is its \<open>message\<close>), and an error
  of the engine thrown inside a \<open>try\<close> block, as the value its \<open>catch\<close> receives.
\<close>

definition error_object :: "string \<Rightarrow> jsval" where
  "error_object m = JObj [(''message'', JStr m)]"

definition thrown :: "js_error + 'a \<Rightarrow> jsval + 'a" where
  "thrown r = (case r of Inl e \<Rightarrow> Inl (error_object (message e)) | Inr v \<Rightarrow> Inr v)"

text \<open>Sequencing of steps that may throw.\<close>

definition and_then :: "'e + 'a \<Rightarrow> ('a \<Rightarrow> 'e + 'b) \<Rightarrow> 'e + 'b" where
  "and_then r f = (case r of Inl e \<Rightarrow> Inl e | Inr v \<Rightarrow> f v)"

text \<open>
  An object literal \<open>{ k1: v.k1, k2: v.k2, ... }\<close>: it throws at its first read when \<open>v\<close> is
  \<open>null\<close> or \<open>undefined\<close>.
\<close>

definition pick :: "jsval \<Rightarrow> string list \<Rightarrow> js_error + jsval" where
  "pick v ks =
     (case ks of
        [] \<Rightarrow> Inr (JObj [])
      | k # ks' \<Rightarrow> if nullish v then Inl (cannot_read v k)
                   else Inr (JObj (map (\<lambda>k. (k, js_get v k)) ks)))"

text \<open>\<open>v[0]\<close>.\<close>

fun index0 :: "jsval \<Rightarrow> js_error + jsval" where
  "index0 JUndefined = Inl (cannot_read JUndefined ''0'')"
| "index0 JNull = Inl (cannot_read JNull ''0'')"
| "index0 (JArr []) = Inr JUndefined"
| "index0 (JArr (x # xs)) = Inr x"
| "index0 (JStr []) = Inr JUndefined"
| "index0 (JStr (c # cs)) = Inr (JStr [c])"
| "index0 v = Inr (js_get v ''0'')"

text \<open>A chain of reads \<open>v.k1.k2...\<close>.\<close>

fun read_path :: "jsval \<Rightarrow> string list \<Rightarrow> js_error + jsval" where
  "read_path v [] = Inr v"
| "read_path v (k # ks) = (case read_prop v k of Inl e \<Rightarrow> Inl e | Inr w \<Rightarrow> read_path w ks)"

text \<open>
  The \<open>catch\<close> block of every probe. It builds the object
  \<open>{ status: 'failed', error: error.message, last_verified: ... }\<close> from the value caught;
  \<open>failed_status\<close> is that object for the value \<open>m\<close> of \<open>error.message\<close> (which is
  \<open>undefined\<close> when the value caught has no message). Reading \<open>error.message\<close> throws a
  \<open>TypeError\<close> when the value caught is \<open>null\<close> or \<open>undefined\<close>: then the \<open>catch\<close> block
  itself throws, and the probe rejects.
\<close>

definition failed_status :: "jsval \<Rightarrow> string \<Rightarrow> ConnectorStatus" where
  "failed_status m now =
     \<lparr>status = S_failed, user = None, workspace = None, team = None, stats = None, bot' = None,
      error = Some m, last_verified = now\<rparr>"

definition probe_catch :: "jsval \<Rightarrow> string \<Rightarrow> js_error + ConnectorStatus" where
  "probe_catch caught now =
     (case read_prop caught ''message'' of
        Inl e \<Rightarrow> Inl e
      | Inr m \<Rightarrow> Inr (failed_status m now))"

text \<open>
  The four probes. Each takes the outcomes of its client calls and the time \<open>now\<close> of
  \<open>new Date().toISOString()\<close>. The \<open>try\<close> block is a computation that ends with the status
  or with a value thrown (the rejection of a client call, or a \<open>TypeError\<close> of reading the
  answer); the probe resolves to the status of the \<open>try\<close> block or to what \<open>probe_catch\<close>
  makes of the value thrown, and rejects when \<open>probe_catch\<close> throws.
\<close>

definition calibrateAsana_try :: "clients \<Rightarrow> string \<Rightarrow> jsval + ConnectorStatus" where
  "calibrateAsana_try cl now =
     and_then (asana_getCurrentUser cl) (\<lambda>usr.
     and_then (asana_listWorkspaces cl) (\<lambda>workspaces.
     and_then (thrown (pick usr [''name'', ''email'', ''gid''])) (\<lambda>u.
     and_then (thrown (index0 workspaces)) (\<lambda>w0.
     and_then (thrown (if truthy w0 then pick w0 [''name'', ''gid'', ''is_organization'']
                       else Inr JNull)) (\<lambda>w.
       Inr \<lparr>status = S_authenticated, user = Some u, workspace = Some w, team = None,
            stats = None, bot' = None, error = None, last_verified = now\<rparr>)))))"

definition calibrateAsana :: "clients \<Rightarrow> string \<Rightarrow> js_error + ConnectorStatus" where
  "calibrateAsana cl now =
     (case calibrateAsana_try cl now of Inr s \<Rightarrow> Inr s | Inl caught \<Rightarrow> probe_catch caught now)"

definition calibrateLinear_try :: "clients \<Rightarrow> string \<Rightarrow> jsval + ConnectorStatus" where
  "calibrateLinear_try cl now =
     and_then (linear_getCurrentUser cl) (\<lambda>usr.
     and_then (linear_getTeams cl) (\<lambda>teams.
     and_then (thrown (pick usr [''name'', ''email'', ''id'', ''admin''])) (\<lambda>u.
     and_then (thrown (index0 teams)) (\<lambda>t0.
     and_then (thrown (if truthy t0 then pick t0 [''name'', ''key'', ''id''] else Inr JNull)) (\<lambda>t.
       Inr \<lparr>status = S_authenticated, user = Some u, workspace = None, team = Some t,
            stats = None, bot' = None, error = None, last_verified = now\<rparr>)))))"

definition calibrateLinear :: "clients \<Rightarrow> string \<Rightarrow> js_error + ConnectorStatus" where
  "calibrateLinear cl now =
     (case calibrateLinear_try cl now of Inr s \<Rightarrow> Inr s | Inl caught \<Rightarrow> probe_catch caught now)"

text \<open>
  \<open>js_plus\<close> is JavaScript's binary \<open>+\<close> on two untyped values (a sum of numbers, a
  concatenation of strings, \<open>NaN\<close>); it is an input of the model.
\<close>

definition calibrateGitHub_try ::
  "(jsval \<Rightarrow> jsval \<Rightarrow> jsval) \<Rightarrow> clients \<Rightarrow> string \<Rightarrow> jsval + ConnectorStatus" where
  "calibrateGitHub_try js_plus cl now =
     and_then (github_getAuthenticatedUser cl) (\<lambda>usr.
     and_then (github_listRepositories cl) (\<lambda>repos.
     and_then (thrown (pick usr [''login'', ''email'', ''id''])) (\<lambda>u.
       Inr \<lparr>status = S_authenticated,
            user = Some (JObj (own_entries u @
                     [(''repos'', js_plus (js_get usr ''public_repos'') (js_get usr ''total_private_repos''))])),
            workspace = None, team = None,
            stats = Some (JObj [(''public_repos'', js_get usr ''public_repos''),
                                (''private_repos'', js_get usr ''total_private_repos'')]),
            bot' = None, error = None, last_verified = now\<rparr>)))"

definition calibrateGitHub ::
  "(jsval \<Rightarrow> jsval \<Rightarrow> jsval) \<Rightarrow> clients \<Rightarrow> string \<Rightarrow> js_error + ConnectorStatus" where
  "calibrateGitHub js_plus cl now =
     (case calibrateGitHub_try js_plus cl now of
        Inr s \<Rightarrow> Inr s
      | Inl caught \<Rightarrow> probe_catch caught now)"

definition calibrateNotion_try :: "clients \<Rightarrow> string \<Rightarrow> jsval + ConnectorStatus" where
  "calibrateNotion_try cl now =
     and_then (notion_getBotUser cl) (\<lambda>b.
     and_then (thrown (read_path b [''bot'', ''workspace_name''])) (\<lambda>workspace.
     and_then (thrown (read_path b [''bot'', ''workspace_id''])) (\<lambda>workspaceId.
     and_then (thrown (read_path b [''bot'', ''owner'', ''user'', ''person'', ''email''])) (\<lambda>owner.
     and_then (thrown (read_path b [''bot'', ''workspace_limits''])) (\<lambda>limits.
       Inr \<lparr>status = S_authenticated, user = None,
            workspace = Some (JObj [(''name'', workspace), (''id'', workspaceId), (''owner'', owner),
                                    (''plan'', JStr (if truthy limits then ''Plus+AI'' else ''Basic''))]),
            team = None, stats = None,
            bot' = Some (JObj [(''id'', js_get b ''id''), (''name'', js_get b ''name'')]),
            error = None, last_verified = now\<rparr>)))))"

definition calibrateNotion :: "clients \<Rightarrow> string \<Rightarrow> js_error + ConnectorStatus" where
  "calibrateNotion cl now =
     (case calibrateNotion_try cl now of Inr s \<Rightarrow> Inr s | Inl caught \<Rightarrow> probe_catch caught now)"

text \<open>
  \<open>Promise.all\<close> over a list of promises that have settled, each resolved (\<open>Inr\<close>) or rejected
  (\<open>Inl\<close>). When one is rejected, \<open>Promise.all\<close> rejects with the reason of the one that was
  rejected first in time: \<open>settled\<close> lists the promises by their position, in the order in
  which they settled (a position it leaves out counts as settling after those it lists, in
  the order of the list). When none is rejected it resolves to the values, in the order of
  the list.
\<close>

definition rejections :: "nat list \<Rightarrow> ('e + 'a) list \<Rightarrow> 'e list" where
  "rejections settled ps =
     List.map_filter
       (\<lambda>i. if i < length ps then (case ps ! i of Inl e \<Rightarrow> Some e | Inr v \<Rightarrow> None) else None)
       (settled @ [0..<length ps])"

definition resolved_values :: "('e + 'a) list \<Rightarrow> 'a list" where
  "resolved_values ps = List.map_filter (\<lambda>p. case p of Inl e \<Rightarrow> None | Inr v \<Rightarrow> Some v) ps"

definition promise_all :: "nat list \<Rightarrow> ('e + 'a) list \<Rightarrow> 'e + 'a list" where
  "promise_all settled ps =
     (case rejections settled ps of
        e # es \<Rightarrow> Inl e
      | [] \<Rightarrow> Inr (resolved_values ps))"

text \<open>
  \<open>calibrate\<close>: the four probes, gathered by \<open>Promise.all\<close>; when it rejects, so does
  \<open>calibrate\<close>, before anything is saved. Otherwise the four statuses are stored under the
  four names and the snapshot is saved; a rejection of \<open>save\<close> is passed on. \<open>now\<close> is the
  time of the snapshot, \<open>probe_now\<close> the completion time of each probe and \<open>settled\<close> the order
  in which the probes settle.
\<close>

definition calibrate ::
  "(jsval \<Rightarrow> jsval \<Rightarrow> jsval) \<Rightarrow> clients \<Rightarrow> CalibrationState io \<Rightarrow> string \<Rightarrow> (nat \<Rightarrow> string) \<Rightarrow>
   nat list \<Rightarrow> js_error + CalibrationState" where
  "calibrate js_plus cl env now probe_now settled =
     (let state = \<lparr>timestamp = now, connectors = no_connectors\<rparr>
      in case promise_all settled
                [calibrateAsana cl (probe_now 0), calibrateLinear cl (probe_now 1),
                 calibrateGitHub js_plus cl (probe_now 2), calibrateNotion cl (probe_now 3)] of
           Inl e \<Rightarrow> Inl e
         | Inr states \<Rightarrow>
            (let asanaState = states ! 0; linearState = states ! 1;
                 githubState = states ! 2; notionState = states ! 3;
                 state = state\<lparr>connectors := (connectors state)\<lparr>asana := Some asanaState\<rparr>\<rparr>;
                 state = state\<lparr>connectors := (connectors state)\<lparr>linear := Some linearState\<rparr>\<rparr>;
                 state = state\<lparr>connectors := (connectors state)\<lparr>github := Some githubState\<rparr>\<rparr>;
                 state = state\<lparr>connectors := (connectors state)\<lparr>notion := Some notionState\<rparr>\<rparr>
             in case fst (save env state) of Inl e \<Rightarrow> Inl e | Inr u \<Rightarrow> Inr state))"


text \<open>The light probes of \<open>verify\<close>: the identity call alone, its rejection caught.\<close>

definition verifyAsana :: "clients \<Rightarrow> js_error + bool" where
  "verifyAsana cl = (case asana_getCurrentUser cl of Inr v \<Rightarrow> Inr True | Inl e \<Rightarrow> Inr False)"

definition verifyLinear :: "clients \<Rightarrow> js_error + bool" where
  "verifyLinear cl = (case linear_getCurrentUser cl of Inr v \<Rightarrow> Inr True | Inl e \<Rightarrow> Inr False)"

definition verifyGitHub :: "clients \<Rightarrow> js_error + bool" where
  "verifyGitHub cl = (case github_getAuthenticatedUser cl of Inr v \<Rightarrow> Inr True | Inl e \<Rightarrow> Inr False)"

definition verifyNotion :: "clients \<Rightarrow> js_error + bool" where
  "verifyNotion cl = (case notion_getBotUser cl of Inr v \<Rightarrow> Inr True | Inl e \<Rightarrow> Inr False)"

section \<open>The health monitor\<close>

text \<open>
  \<open>checkAsana\<close>, \<open>checkLinear\<close>, \<open>checkGitHub\<close> and \<open>checkNotion\<close> have one body, applied to
  the answer of the connector's light probe; \<open>latency\<close> is the difference of the two readings
  of the clock.
\<close>

definition check :: "js_error + bool \<Rightarrow> int \<Rightarrow> string \<Rightarrow> ConnectorHealth" where
  "check verified latency now =
     (case verified of
        Inr valid \<Rightarrow> \<lparr>health_status = (if valid then H_healthy else H_failed), latency_ms = latency,
                      last_check = now, health_error = None\<rparr>
      | Inl e \<Rightarrow> \<lparr>health_status = H_failed, latency_ms = latency,
                  last_check = now, health_error = Some (message e)\<rparr>)"

definition checkAsana :: "clients \<Rightarrow> int \<Rightarrow> string \<Rightarrow> ConnectorHealth" where
  "checkAsana cl latency now = check (verifyAsana cl) latency now"

definition checkLinear :: "clients \<Rightarrow> int \<Rightarrow> string \<Rightarrow> ConnectorHealth" where
  "checkLinear cl latency now = check (verifyLinear cl) latency now"

definition checkGitHub :: "clients \<Rightarrow> int \<Rightarrow> string \<Rightarrow> ConnectorHealth" where
  "checkGitHub cl latency now = check (verifyGitHub cl) latency now"

definition checkNotion :: "clients \<Rightarrow> int \<Rightarrow> string \<Rightarrow> ConnectorHealth" where
  "checkNotion cl latency now = check (verifyNotion cl) latency now"

text \<open>
  The second half of \<open>runHealthCheck\<close>, from the four answers on: they are stored under the
  four names and the overall health is determined from
  \<open>Object.values(health.connectors).map(c => c.status)\<close>.
\<close>

definition determine_overall :: "health list \<Rightarrow> overall_health" where
  "determine_overall statuses =
     (if list_all (\<lambda>s. s = H_healthy) statuses then O_healthy
      else if list_ex (\<lambda>s. s = H_failed) statuses then O_degraded
      else O_warning)"

definition build_health ::
  "string \<Rightarrow> ConnectorHealth \<Rightarrow> ConnectorHealth \<Rightarrow> ConnectorHealth \<Rightarrow> ConnectorHealth \<Rightarrow> HealthStatus" where
  "build_health now c0 c1 c2 c3 =
     (let health = \<lparr>health_timestamp = now, overall = O_healthy, health_connectors = no_connectors\<rparr>;
          health = health\<lparr>health_connectors := (health_connectors health)\<lparr>asana := Some c0\<rparr>\<rparr>;
          health = health\<lparr>health_connectors := (health_connectors health)\<lparr>linear := Some c1\<rparr>\<rparr>;
          health = health\<lparr>health_connectors := (health_connectors health)\<lparr>github := Some c2\<rparr>\<rparr>;
          health = health\<lparr>health_connectors := (health_connectors health)\<lparr>notion := Some c3\<rparr>\<rparr>;
          statuses = map health_status (connector_values (health_connectors health))
      in health\<lparr>overall := determine_overall statuses\<rparr>)"

text \<open>
  \<open>runHealthCheck\<close>: the four checks, the snapshot, and \<open>saveHealth\<close>, whose rejection it
  passes on (the lines it logs and the alert it prints are left out).
\<close>

definition runHealthCheck ::
  "clients \<Rightarrow> HealthStatus io \<Rightarrow> string \<Rightarrow> (nat \<Rightarrow> int) \<Rightarrow> (nat \<Rightarrow> string) \<Rightarrow> js_error + HealthStatus" where
  "runHealthCheck cl env now latency check_now =
     (let health = build_health now
            (checkAsana cl (latency 0) (check_now 0))
            (checkLinear cl (latency 1) (check_now 1))
            (checkGitHub cl (latency 2) (check_now 2))
            (checkNotion cl (latency 3) (check_now 3))
      in case fst (saveHealth env health) of Inl e \<Rightarrow> Inl e | Inr u \<Rightarrow> Inr health)"

text \<open>
  The monitor and its timers. \<open>setInterval\<close> registers a timer and the source keeps no
  handle of it: no timer is ever cleared, so \<open>timers\<close> counts the periodic schedules that
  exist. \<open>checks_started\<close> counts the calls of \<open>runHealthCheck\<close>. \<open>period\<close> is the passing of
  one interval of \<open>checkIntervalMs\<close>: every timer fires once and runs the callback
  \<open>if (this.monitoringActive) this.runHealthCheck()\<close>.
\<close>

record HealthMonitor =
  monitoringActive :: bool
  timers :: nat
  checks_started :: nat

definition new_monitor :: HealthMonitor where
  "new_monitor = \<lparr>monitoringActive = False, timers = 0, checks_started = 0\<rparr>"

definition start :: "HealthMonitor \<Rightarrow> HealthMonitor" where
  "start m =
     (if monitoringActive m then m
      else m\<lparr>monitoringActive := True, checks_started := Suc (checks_started m),
             timers := Suc (timers m)\<rparr>)"

definition stop :: "HealthMonitor \<Rightarrow> HealthMonitor" where
  "stop m = m\<lparr>monitoringActive := False\<rparr>"

definition timer_callback :: "HealthMonitor \<Rightarrow> HealthMonitor" where
  "timer_callback m =
     (if monitoringActive m then m\<lparr>checks_started := Suc (checks_started m)\<rparr> else m)"

definition period :: "HealthMonitor \<Rightarrow> HealthMonitor" where
  "period m = (timer_callback ^^ timers m) m"

datatype monitor_event = Start | Stop | Period

fun run_event :: "HealthMonitor \<Rightarrow> monitor_event \<Rightarrow> HealthMonitor" where
  "run_event m Start = start m"
| "run_event m Stop = stop m"
| "run_event m Period = period m"

definition run_events :: "monitor_event list \<Rightarrow> HealthMonitor" where
  "run_events evs = foldl run_event new_monitor evs"

section \<open>enforcer.ts\<close>

definition maxPaginationAttempts :: nat where
  "maxPaginationAttempts = 100"

text \<open>
  One block of \<open>injectIdentifiers\<close>:
  \<open>if (tool.startsWith(prefix) && !params[key] && state?.connectors?.[connector]?.[field])\<close>
  then \<open>params[key] = state.connectors[connector][field][idkey]\<close> and the message is pushed.
  \<open>params\<close> is the object that \<open>result.enhanced.params\<close> refers to.
\<close>

definition inject ::
  "jsval \<Rightarrow> string \<Rightarrow> string \<Rightarrow> string \<Rightarrow> string \<Rightarrow> string \<Rightarrow> string \<Rightarrow>
   EnforcementResult \<times> heap \<Rightarrow> EnforcementResult \<times> heap" where
  "inject state prefix key connector field idkey msg rh =
     (let result = fst rh; h = snd rh;
          p = params (enhanced result);
          found = opt_chain (opt_chain (opt_chain state ''connectors'') connector) field
      in if startsWith (tool (enhanced result)) prefix \<and> \<not> truthy (get_param h p key) \<and> truthy found
         then (result\<lparr>modifications := modifications result @ [msg]\<rparr>,
               set_param h p key (js_get found idkey))
         else rh)"

definition injectIdentifiers :: "jsval \<Rightarrow> EnforcementResult \<times> heap \<Rightarrow> EnforcementResult \<times> heap" where
  "injectIdentifiers state rh =
     (let rh1 = inject state ''asana'' ''workspace'' ''asana'' ''workspace'' ''gid''
                  ''Injected Asana workspace ID'' rh;
          rh2 = inject state ''linear'' ''teamId'' ''linear'' ''team'' ''id''
                  ''Injected Linear team ID'' rh1;
          rh3 = inject state ''notion'' ''workspace_id'' ''notion'' ''workspace'' ''id''
                  ''Injected Notion workspace ID'' rh2;
          rh4 = inject state ''github'' ''owner'' ''github'' ''user'' ''login''
                  ''Injected GitHub owner'' rh3
      in rh4)"

definition hasNameInsteadOfId :: "jsobject \<Rightarrow> bool" where
  "hasNameInsteadOfId ps =
     ((truthy (obj_get ps ''name'') \<and> \<not> truthy (obj_get ps ''id'') \<and> \<not> truthy (obj_get ps ''gid'')
         \<and> \<not> truthy (obj_get ps ''teamId''))
      \<or> (truthy (obj_get ps ''teamName'') \<and> \<not> truthy (obj_get ps ''teamId''))
      \<or> (truthy (obj_get ps ''projectName'') \<and> \<not> truthy (obj_get ps ''projectId'')))"

text \<open>\<open>searchForId\<close> logs what it would search for and returns \<open>null\<close>.\<close>

definition searchForId :: "string \<Rightarrow> jsobject \<Rightarrow> jsval" where
  "searchForId t ps = JNull"

definition resolveIdentifiers :: "EnforcementResult \<times> heap \<Rightarrow> EnforcementResult \<times> heap" where
  "resolveIdentifiers rh =
     (let result = fst rh; h = snd rh; p = params (enhanced result)
      in if hasNameInsteadOfId (objects h p)
         then (let resolved = searchForId (tool (enhanced result)) (objects h p)
               in if truthy resolved
                  then (result\<lparr>modifications := modifications result @ [''Resolved name to ID'']\<rparr>,
                        object_assign h p resolved)
                  else rh)
         else rh)"

definition paginationTools :: "string list" where
  "paginationTools =
     [''list_tasks'', ''list_projects'', ''list_issues'', ''get_issues'',
      ''list_pull_requests'', ''list_commits'', ''search_'',
      ''get_comments'', ''list_cycles'']"

definition requiresPagination :: "ToolCall \<Rightarrow> bool" where
  "requiresPagination toolCall = list_ex (\<lambda>pattern. str_includes (tool toolCall) pattern) paginationTools"

definition chainingPatterns :: "string list" where
  "chainingPatterns = [''create_issue'', ''create_task'', ''create_project'']"

definition requiresChaining :: "ToolCall \<Rightarrow> bool" where
  "requiresChaining toolCall = list_ex (\<lambda>pattern. str_includes (tool toolCall) pattern) chainingPatterns"

text \<open>
  \<open>buildOperationChain\<close>: the chain starts with the call that was passed in; the follow-up
  call has a new parameter object \<open>{ labels: toolCall.params.labels }\<close>.
\<close>

definition buildOperationChain :: "heap \<Rightarrow> ToolCall \<Rightarrow> ToolCall list \<times> heap" where
  "buildOperationChain h toolCall =
     (if str_includes (tool toolCall) ''create_issue'' \<and> truthy (get_param h (params toolCall) ''labels'')
      then (let (a, h') = new_object h [''labels'' \<mapsto> get_param h (params toolCall) ''labels'']
            in ([toolCall, \<lparr>tool = ''add_labels'', params = a\<rparr>], h'))
      else ([toolCall], h))"

text \<open>
  \<open>enforce\<close>. \<open>original\<close> is the reference that was passed in and \<open>enhanced\<close> is the spread
  \<open>{ ...toolCall }\<close>: a new \<open>ToolCall\<close> object whose \<open>params\<close> is the same reference. The
  function returns the result and the store as the rules leave it, or the error of \<open>load\<close>.
\<close>

definition enforce ::
  "(js_error + string) \<Rightarrow> (string \<Rightarrow> js_error + jsval) \<Rightarrow> heap \<Rightarrow> ToolCall \<Rightarrow>
   js_error + EnforcementResult \<times> heap" where
  "enforce readFile JSON_parse h toolCall =
     (case load readFile JSON_parse of
        Inl e \<Rightarrow> Inl e
      | Inr state \<Rightarrow>
          (let rh0 = (\<lparr>original = toolCall, enhanced = toolCall, modifications = [],
                       enforce_pagination = None, chain_operations = None\<rparr>, h);
               rh1 = injectIdentifiers state rh0;
               rh2 = resolveIdentifiers rh1;
               rh3 = (if requiresPagination toolCall
                      then ((fst rh2)\<lparr>enforce_pagination := Some True,
                                      modifications := modifications (fst rh2) @ [''Pagination enforcement enabled'']\<rparr>,
                            snd rh2)
                      else rh2);
               rh4 = (if requiresChaining toolCall
                      then (let (chain, h') = buildOperationChain (snd rh3) toolCall
                            in ((fst rh3)\<lparr>chain_operations := Some chain,
                                           modifications := modifications (fst rh3) @ [''Operation chaining configured'']\<rparr>,
                                h'))
                      else rh3)
           in Inr rh4))"

text \<open>
  \<open>executeTool\<close> is the interface to the tool execution; the source has a placeholder for it
  that answers one empty page. \<open>executeWithPagination\<close> is modelled over any executor
  \<open>exec\<close>: the answer (or the rejection) may depend on the number of the attempt, the tool
  and the parameters sent.
\<close>

type_synonym executor = "nat \<Rightarrow> string \<Rightarrow> jsobject \<Rightarrow> js_error + jsval"

definition executeTool :: executor where
  "executeTool n t ps =
     Inr (JObj [(''nodes'', JArr []), (''pageInfo'', JObj [(''hasNextPage'', JBool False)])])"

text \<open>\<open>Array.isArray(v)\<close>.\<close>

fun is_array :: "jsval \<Rightarrow> bool" where
  "is_array (JArr xs) = True"
| "is_array v = False"

text \<open>
  The spread \<open>...v\<close> in \<open>results.push(...v)\<close>: the elements of an array, the characters of a
  string; every other value is not iterable, which is a \<open>TypeError\<close>.
\<close>

fun spread :: "jsval \<Rightarrow> js_error + jsval list" where
  "spread (JArr xs) = Inr xs"
| "spread (JStr s) = Inr (map (\<lambda>c. JStr [c]) s)"
| "spread v = Inl (Error None ''value is not iterable'')"

text \<open>
  The variables of the loop. \<open>hasMore\<close> holds the truth value of what the source assigns to
  it (it is only ever tested). \<open>calls\<close> and \<open>pages\<close> are not variables of the source: they
  record the calls of \<open>executeTool\<close> made and the responses received, in order.
\<close>

record pager =
  results :: "jsval list"
  hasMore :: bool
  cursor :: jsval
  attempts :: nat
  calls :: nat
  pages :: "jsval list"

text \<open>The copy \<open>{ ...toolCall.params }\<close> with the three cursor fields set when there is a cursor.\<close>

definition page_params :: "jsobject \<Rightarrow> jsval \<Rightarrow> jsobject" where
  "page_params ps c =
     (if truthy c then ps(''cursor'' \<mapsto> c, ''after'' \<mapsto> c, ''offset'' \<mapsto> c) else ps)"

text \<open>The \<open>if\<close> / \<open>else if\<close> chain on the shape of the response.\<close>

definition absorb :: "jsval \<Rightarrow> pager \<Rightarrow> js_error + pager" where
  "absorb response st =
     (if is_array response then
        (case spread response of
           Inl e \<Rightarrow> Inl e
         | Inr items \<Rightarrow> Inr (st\<lparr>results := results st @ items, hasMore := False\<rparr>))
      else
        (case read_prop response ''nodes'' of
           Inl e \<Rightarrow> Inl e
         | Inr nodes \<Rightarrow>
             if truthy nodes then
               (case spread nodes of
                  Inl e \<Rightarrow> Inl e
                | Inr items \<Rightarrow>
                    Inr (st\<lparr>results := results st @ items,
                            hasMore := truthy (opt_chain (js_get response ''pageInfo'') ''hasNextPage''),
                            cursor := opt_chain (js_get response ''pageInfo'') ''endCursor''\<rparr>))
             else if truthy (js_get response ''data'') then
               (case spread (js_get response ''data'') of
                  Inl e \<Rightarrow> Inl e
                | Inr items \<Rightarrow>
                    Inr (st\<lparr>results := results st @ items,
                            cursor := js_get response ''next_page'',
                            hasMore := truthy (js_get response ''next_page'')\<rparr>))
             else Inr st))"

text \<open>One pass through the body of the \<open>while\<close> loop.\<close>

definition iteration :: "executor \<Rightarrow> string \<Rightarrow> jsobject \<Rightarrow> pager \<Rightarrow> js_error \<times> pager + pager" where
  "iteration exec t ps st =
     (case exec (attempts st) t (page_params ps (cursor st)) of
        Inl e \<Rightarrow> Inl (e, st\<lparr>calls := Suc (calls st)\<rparr>)
      | Inr response \<Rightarrow>
          (case absorb response (st\<lparr>calls := Suc (calls st), pages := pages st @ [response]\<rparr>) of
             Inl e \<Rightarrow> Inl (e, st\<lparr>calls := Suc (calls st), pages := pages st @ [response]\<rparr>)
           | Inr st' \<Rightarrow> Inr (st'\<lparr>attempts := Suc (attempts st')\<rparr>)))"

text \<open>
  The loop \<open>while (hasMore && attempts < this.maxPaginationAttempts)\<close>. It ends with the
  list returned or the error thrown, and with the variables as they are then.
\<close>

function pagination_loop ::
  "executor \<Rightarrow> string \<Rightarrow> jsobject \<Rightarrow> pager \<Rightarrow> (js_error + jsval list) \<times> pager" where
  "pagination_loop exec t ps st =
     (if hasMore st \<and> attempts st < maxPaginationAttempts
      then (case iteration exec t ps st of
              Inl (e, st') \<Rightarrow> (Inl e, st')
            | Inr st' \<Rightarrow> pagination_loop exec t ps st')
      else (Inr (results st), st))"
  by pat_completeness auto
termination
proof (relation "measure (\<lambda>(exec, t, ps, st). maxPaginationAttempts - attempts st)")
  show "wf (measure (\<lambda>(exec, t, ps, st). maxPaginationAttempts - attempts st))"
    by simp
next
  fix exec :: executor and t :: string and ps :: jsobject and st x2 :: pager
  assume run: "hasMore st \<and> attempts st < maxPaginationAttempts"
    and it: "iteration exec t ps st = Inr x2"
  from it have "attempts x2 = Suc (attempts st)"
    by (auto simp: iteration_def absorb_def split: sum.splits if_splits)
  with run show "((exec, t, ps, x2), (exec, t, ps, st))
      \<in> measure (\<lambda>(exec, t, ps, st). maxPaginationAttempts - attempts st)"
    by auto
qed

declare pagination_loop.simps [simp del]

definition executeWithPagination ::
  "executor \<Rightarrow> heap \<Rightarrow> ToolCall \<Rightarrow> (js_error + jsval list) \<times> pager" where
  "executeWithPagination exec h toolCall =
     pagination_loop exec (tool toolCall) (objects h (params toolCall))
       \<lparr>results = [], hasMore = True, cursor = JNull, attempts = 0, calls = 0, pages = []\<rparr>"

text \<open>
  The items of a page, by its shape: the elements of an array, else those of a truthy
  \<open>nodes\<close>, else those of a truthy \<open>data\<close>; a response of no such shape has none.
\<close>

definition elements :: "jsval \<Rightarrow> jsval list" where
  "elements v = (case spread v of Inr xs \<Rightarrow> xs | Inl e \<Rightarrow> [])"

definition page_items :: "jsval \<Rightarrow> jsval list" where
  "page_items response =
     (if is_array response then elements response
      else if truthy (js_get response ''nodes'') then elements (js_get response ''nodes'')
      else if truthy (js_get response ''data'') then elements (js_get response ''data'')
      else [])"

text \<open>
  What holds of the variables each time the loop tests its condition, and what holds
  when it has ended.
\<close>

definition pager_inv :: "pager \<Rightarrow> bool" where
  "pager_inv st =
     (calls st = attempts st \<and> length (pages st) = attempts st \<and>
      results st = concat (map page_items (pages st)) \<and>
      (hasMore st \<longrightarrow> (\<forall>p \<in> set (pages st). \<not> is_array p)) \<and>
      (\<forall>i < length (pages st). is_array (pages st ! i) \<longrightarrow> Suc i = length (pages st)))"

definition pager_post :: "(js_error + jsval list) \<times> pager \<Rightarrow> bool" where
  "pager_post r =
     (calls (snd r) \<le> maxPaginationAttempts \<and>
      length (pages (snd r)) \<le> calls (snd r) \<and>
      (\<forall>i < length (pages (snd r)). is_array (pages (snd r) ! i) \<longrightarrow>
          Suc i = length (pages (snd r)) \<and> calls (snd r) = Suc i) \<and>
      (\<forall>rs. fst r = Inr rs \<longrightarrow> rs = concat (map page_items (pages (snd r)))))"

section \<open>Example inputs\<close>

text \<open>
  A stored snapshot that holds an Asana workspace, its parser, a calibration file that does
  not exist, and a store whose object at address 0 is the parameter bag of the call.
\<close>

definition snapshot_W1 :: jsval where
  "snapshot_W1 =
     JObj [(''connectors'', JObj [(''asana'', JObj [(''workspace'', JObj [(''gid'', JStr ''W1'')])])])]"

definition parse_W1 :: "string \<Rightarrow> js_error + jsval" where
  "parse_W1 s = Inr snapshot_W1"

definition no_snapshot :: "js_error + string" where
  "no_snapshot = Inl (Error (Some ''ENOENT'') ''no such file or directory'')"

definition heap_with :: "jsobject \<Rightarrow> heap" where
  "heap_with obj = \<lparr>objects = (\<lambda>a. if a = 0 then obj else Map.empty), next_addr = 1\<rparr>"

definition create_issue_call :: ToolCall where
  "create_issue_call = \<lparr>tool = ''create_issue'', params = 0\<rparr>"

definition asana_update_call :: ToolCall where
  "asana_update_call = \<lparr>tool = ''asana.update_task'', params = 0\<rparr>"

text \<open>
  A file system on which everything succeeds, one on which the YAML file cannot be written,
  and one on which the JSON file cannot be written.
\<close>

definition io_ok :: "'st io" where
  "io_ok = \<lparr>mkdir = (\<lambda>p. None), writeFile = (\<lambda>p s. None),
            JSON_stringify = (\<lambda>st. Inr ''{}''), yaml_dump = (\<lambda>st. Inr ''--'')\<rparr>"

definition io_yaml_fails :: "'st io" where
  "io_yaml_fails =
     \<lparr>mkdir = (\<lambda>p. None),
      writeFile = (\<lambda>p s. if p = CalibrationYaml
                          then Some (Error (Some ''EACCES'') ''permission denied'') else None),
      JSON_stringify = (\<lambda>st. Inr ''{}''), yaml_dump = (\<lambda>st. Inr ''--'')\<rparr>"

definition io_json_fails :: "'st io" where
  "io_json_fails =
     \<lparr>mkdir = (\<lambda>p. None),
      writeFile = (\<lambda>p s. if p = CalibrationJson
                          then Some (Error (Some ''ENOSPC'') ''no space left on device'') else None),
      JSON_stringify = (\<lambda>st. Inr ''{}''), yaml_dump = (\<lambda>st. Inr ''--'')\<rparr>"


definition clients_all_down :: clients where
  "clients_all_down =
     \<lparr>asana_getCurrentUser = Inl (error_object ''401 Unauthorized''),
      asana_listWorkspaces = Inl (error_object ''401 Unauthorized''),
      linear_getCurrentUser = Inl (error_object ''fetch failed''),
      linear_getTeams = Inl (error_object ''fetch failed''),
      github_getAuthenticatedUser = Inl (error_object ''Bad credentials''),
      github_listRepositories = Inl (error_object ''Bad credentials''),
      notion_getBotUser = Inl (error_object ''socket hang up'')\<rparr>"

definition clients_reject_undefined :: clients where
  "clients_reject_undefined =
     \<lparr>asana_getCurrentUser = Inl JUndefined,
      asana_listWorkspaces = Inr (JArr []),
      linear_getCurrentUser = Inr (JObj [(''name'', JStr ''Ada''), (''id'', JStr ''u1'')]),
      linear_getTeams = Inr (JArr []),
      github_getAuthenticatedUser = Inr (JObj [(''login'', JStr ''ada'')]),
      github_listRepositories = Inr (JArr []),
      notion_getBotUser = Inl (error_object ''socket hang up'')\<rparr>"

text \<open>
  An executor that answers a first page \<open>{data: ['a'], next_page: 'p2'}\<close> and then the array
  of \<open>'b'\<close> and the cursor it was sent.
\<close>

definition exec_two_pages :: executor where
  "exec_two_pages n t ps =
     (if n = 0 then Inr (JObj [(''data'', JArr [JStr ''a'']), (''next_page'', JStr ''p2'')])
      else Inr (JArr [JStr ''b'', obj_get ps ''cursor'']))"

definition health_of :: "health \<Rightarrow> ConnectorHealth" where
  "health_of s = \<lparr>health_status = s, latency_ms = 12, last_check = ''T'', health_error = None\<rparr>"

definition empty_snapshot :: CalibrationState where
  "empty_snapshot = \<lparr>timestamp = ''T'', connectors = no_connectors\<rparr>"

section \<open>Properties of strings\<close>

lemma startsWith_iff: "startsWith s p \<longleftrightarrow> (\<exists>r. s = p @ r)"
  by (induction s p rule: startsWith.induct) auto

lemma str_includes_iff: "str_includes s p \<longleftrightarrow> (\<exists>a b. s = a @ p @ b)"
proof (induction s)
  case Nil
  then show ?case by auto
next
  case (Cons c cs)
  show ?case
  proof
    assume "str_includes (c # cs) p"
    then consider "startsWith (c # cs) p" | "str_includes cs p" by auto
    then show "\<exists>a b. c # cs = a @ p @ b"
    proof cases
      case 1
      then obtain r where "c # cs = p @ r" using startsWith_iff by blast
      then have "c # cs = [] @ p @ r" by simp
      then show ?thesis by blast
    next
      case 2
      then obtain a b where "cs = a @ p @ b" using Cons.IH by blast
      then have "c # cs = (c # a) @ p @ b" by simp
      then show ?thesis by blast
    qed
  next
    assume "\<exists>a b. c # cs = a @ p @ b"
    then obtain a b where ab: "c # cs = a @ p @ b" by blast
    show "str_includes (c # cs) p"
    proof (cases a)
      case Nil
      with ab have "startsWith (c # cs) p" using startsWith_iff by auto
      then show ?thesis by simp
    next
      case (Cons x a')
      with ab have "cs = a' @ p @ b" by simp
      then have "str_includes cs p" using Cons.IH by blast
      then show ?thesis by simp
    qed
  qed
qed

section \<open>The enforcement pipeline\<close>

lemma load_no_snapshot: "load no_snapshot parse_W1 = Inr JNull"
  by (simp add: load_def no_snapshot_def)

lemma load_W1: "load (Inr ''file'') parse_W1 = Inr snapshot_W1"
  by (simp add: load_def parse_W1_def)

lemma resolveIdentifiers_noop: "resolveIdentifiers rh = rh"
  by (simp add: resolveIdentifiers_def searchForId_def Let_def)

lemma inject_frame:
  "enhanced (fst (inject state prefix key connector field idkey msg rh)) = enhanced (fst rh)"
  "original (fst (inject state prefix key connector field idkey msg rh)) = original (fst rh)"
  "enforce_pagination (fst (inject state prefix key connector field idkey msg rh)) = enforce_pagination (fst rh)"
  "chain_operations (fst (inject state prefix key connector field idkey msg rh)) = chain_operations (fst rh)"
  "next_addr (snd (inject state prefix key connector field idkey msg rh)) = next_addr (snd rh)"
  by (simp_all add: inject_def Let_def set_param_def)

lemma inject_other_key:
  "key' \<noteq> key \<Longrightarrow>
   get_param (snd (inject state prefix key connector field idkey msg rh)) a key' = get_param (snd rh) a key'"
  by (simp add: inject_def Let_def set_param_def get_param_def obj_get_def)

lemma inject_skip:
  "\<not> (startsWith (tool (enhanced (fst rh))) prefix
       \<and> \<not> truthy (get_param (snd rh) (params (enhanced (fst rh))) key)) \<Longrightarrow>
   inject state prefix key connector field idkey msg rh = rh"
  by (auto simp: inject_def Let_def)

lemma injectIdentifiers_frame:
  "enhanced (fst (injectIdentifiers state rh)) = enhanced (fst rh)"
  "original (fst (injectIdentifiers state rh)) = original (fst rh)"
  "enforce_pagination (fst (injectIdentifiers state rh)) = enforce_pagination (fst rh)"
  "chain_operations (fst (injectIdentifiers state rh)) = chain_operations (fst rh)"
  "next_addr (snd (injectIdentifiers state rh)) = next_addr (snd rh)"
  by (simp_all add: injectIdentifiers_def Let_def inject_frame)

lemma injectIdentifiers_labels:
  "get_param (snd (injectIdentifiers state rh)) a ''labels'' = get_param (snd rh) a ''labels''"
  by (simp add: injectIdentifiers_def Let_def inject_other_key)

lemma injectIdentifiers_skip:
  assumes "startsWith (tool (enhanced (fst rh))) ''asana'' \<longrightarrow>
             truthy (get_param (snd rh) (params (enhanced (fst rh))) ''workspace'')"
    and "startsWith (tool (enhanced (fst rh))) ''linear'' \<longrightarrow>
             truthy (get_param (snd rh) (params (enhanced (fst rh))) ''teamId'')"
    and "startsWith (tool (enhanced (fst rh))) ''notion'' \<longrightarrow>
             truthy (get_param (snd rh) (params (enhanced (fst rh))) ''workspace_id'')"
    and "startsWith (tool (enhanced (fst rh))) ''github'' \<longrightarrow>
             truthy (get_param (snd rh) (params (enhanced (fst rh))) ''owner'')"
  shows "injectIdentifiers state rh = rh"
  using assms by (simp add: injectIdentifiers_def Let_def inject_skip)

lemma requiresPagination_iff:
  "requiresPagination c \<longleftrightarrow> (\<exists>frag \<in> set paginationTools. \<exists>a b. tool c = a @ frag @ b)"
  by (simp add: requiresPagination_def list_ex_iff str_includes_iff)

lemma buildOperationChain_frame:
  "fst (buildOperationChain h c) =
     (if str_includes (tool c) ''create_issue'' \<and> truthy (get_param h (params c) ''labels'')
      then [c, \<lparr>tool = ''add_labels'', params = next_addr h\<rparr>] else [c])"
  by (simp add: buildOperationChain_def new_object_def)

lemma buildOperationChain_objects:
  "a < next_addr h \<Longrightarrow> objects (snd (buildOperationChain h c)) a = objects h a"
  by (simp add: buildOperationChain_def new_object_def)

lemma ex_pair_eq: "(\<exists>r. (\<exists>h'. x = (r, h')) \<and> P r) = P (fst x)"
  by (cases x) auto

text \<open>When \<open>load\<close> returns, \<open>enforce\<close> returns, and these are the fields of its result.\<close>

lemma enforce_loaded:
  assumes "load readFile JSON_parse = Inr state"
  shows "\<exists>r h'. enforce readFile JSON_parse h c = Inr (r, h') \<and>
           original r = c \<and> enhanced r = c \<and>
           enforce_pagination r = (if requiresPagination c then Some True else None) \<and>
           chain_operations r =
             (if requiresChaining c
              then Some (fst (buildOperationChain
                     (snd (injectIdentifiers state
                        (\<lparr>original = c, enhanced = c, modifications = [],
                          enforce_pagination = None, chain_operations = None\<rparr>, h))) c))
              else None)"
  using assms
  by (simp add: enforce_def Let_def resolveIdentifiers_noop injectIdentifiers_frame split_def ex_pair_eq)

text \<open>When \<open>load\<close> throws, \<open>enforce\<close> throws the same error.\<close>

lemma enforce_load_fails:
  "load readFile JSON_parse = Inl e \<Longrightarrow> enforce readFile JSON_parse h c = Inl e"
  by (simp add: enforce_def)

text \<open>
  C7. For every call, once the snapshot has been loaded, \<open>enforce\<close> returns a result whose
  \<open>enforce_pagination\<close> is \<open>true\<close> exactly when the tool name contains one of the nine
  fragments, and is absent exactly when it contains none.
\<close>

theorem enforce_pagination_iff_fragment:
  assumes "load readFile JSON_parse = Inr state"
  shows "\<exists>r h'. enforce readFile JSON_parse h c = Inr (r, h') \<and>
     (enforce_pagination r = Some True \<longleftrightarrow>
        (\<exists>frag \<in> set [''list_tasks'', ''list_projects'', ''list_issues'', ''get_issues'',
                        ''list_pull_requests'', ''list_commits'', ''search_'',
                        ''get_comments'', ''list_cycles'']. \<exists>a b. tool c = a @ frag @ b)) \<and>
     (enforce_pagination r = None \<longleftrightarrow>
        \<not> (\<exists>frag \<in> set [''list_tasks'', ''list_projects'', ''list_issues'', ''get_issues'',
                        ''list_pull_requests'', ''list_commits'', ''search_'',
                        ''get_comments'', ''list_cycles'']. \<exists>a b. tool c = a @ frag @ b))"
proof -
  from enforce_loaded [OF assms, of h c] obtain r h'
    where r: "enforce readFile JSON_parse h c = Inr (r, h')"
      and p: "enforce_pagination r = (if requiresPagination c then Some True else None)"
    by blast
  have iff: "requiresPagination c \<longleftrightarrow>
        (\<exists>frag \<in> set [''list_tasks'', ''list_projects'', ''list_issues'', ''get_issues'',
                        ''list_pull_requests'', ''list_commits'', ''search_'',
                        ''get_comments'', ''list_cycles'']. \<exists>a b. tool c = a @ frag @ b)"
    unfolding requiresPagination_iff paginationTools_def ..
  have t: "(enforce_pagination r = Some True) = requiresPagination c"
    and n: "(enforce_pagination r = None) = (\<not> requiresPagination c)"
    using p by simp_all
  show ?thesis
    unfolding iff [symmetric]
    by (rule exI [of _ r], rule exI [of _ h']) (simp only: r t n)
qed

text \<open>
  With no calibration file, the tool \<open>list_issues\<close> gets the flag and the tool \<open>get_issue\<close>
  does not.
\<close>

theorem enforce_pagination_iff_fragment_witness:
  "load no_snapshot parse_W1 = Inr JNull \<and>
   (\<exists>r h'. enforce no_snapshot parse_W1 (heap_with Map.empty) \<lparr>tool = ''list_issues'', params = 0\<rparr>
              = Inr (r, h') \<and> enforce_pagination r = Some True) \<and>
   (\<exists>r h'. enforce no_snapshot parse_W1 (heap_with Map.empty) \<lparr>tool = ''get_issue'', params = 0\<rparr>
              = Inr (r, h') \<and> enforce_pagination r = None)"
proof -
  have a: "\<exists>frag \<in> set [''list_tasks'', ''list_projects'', ''list_issues'', ''get_issues'',
                        ''list_pull_requests'', ''list_commits'', ''search_'',
                        ''get_comments'', ''list_cycles'']. \<exists>a b. ''list_issues'' = a @ frag @ b"
    by (simp add: str_includes_iff [symmetric])
  have b: "\<not> (\<exists>frag \<in> set [''list_tasks'', ''list_projects'', ''list_issues'', ''get_issues'',
                        ''list_pull_requests'', ''list_commits'', ''search_'',
                        ''get_comments'', ''list_cycles'']. \<exists>a b. ''get_issue'' = a @ frag @ b)"
    by (simp add: str_includes_iff [symmetric])
  from enforce_pagination_iff_fragment
         [OF load_no_snapshot, of "heap_with Map.empty" "\<lparr>tool = ''list_issues'', params = 0\<rparr>"] a
  have 1: "\<exists>r h'. enforce no_snapshot parse_W1 (heap_with Map.empty) \<lparr>tool = ''list_issues'', params = 0\<rparr>
              = Inr (r, h') \<and> enforce_pagination r = Some True"
    by auto
  from enforce_pagination_iff_fragment
         [OF load_no_snapshot, of "heap_with Map.empty" "\<lparr>tool = ''get_issue'', params = 0\<rparr>"] b
  have 2: "\<exists>r h'. enforce no_snapshot parse_W1 (heap_with Map.empty) \<lparr>tool = ''get_issue'', params = 0\<rparr>
              = Inr (r, h') \<and> enforce_pagination r = None"
    by auto
  show ?thesis using load_no_snapshot 1 2 by blast
qed

lemma requiresChaining_create_issue:
  "\<exists>a b. tool c = a @ ''create_issue'' @ b \<Longrightarrow> requiresChaining c"
  by (simp add: requiresChaining_def chainingPatterns_def str_includes_iff)

lemma enforce_new_labels_object:
  assumes "load readFile JSON_parse = Inr state"
    and "str_includes (tool c) ''create_issue''"
    and "truthy (get_param h (params c) ''labels'')"
    and "enforce readFile JSON_parse h c = Inr (r, h')"
  shows "objects h' (next_addr h) = [''labels'' \<mapsto> get_param h (params c) ''labels'']"
proof -
  have rc: "requiresChaining c"
    using assms(2) by (simp add: requiresChaining_def chainingPatterns_def)
  show ?thesis
    using assms rc
    by (auto simp: enforce_def Let_def resolveIdentifiers_noop split_def
          buildOperationChain_def new_object_def injectIdentifiers_labels injectIdentifiers_frame)
qed

text \<open>
  C1, as the code has it. For every call whose tool name contains \<open>create_issue\<close>, once the
  snapshot has been loaded, \<open>enforce\<close> returns a result in which \<open>chain_operations\<close> is
  present and starts with a call equal to \<open>enhanced\<close> (the same tool, the same parameter
  object). When \<open>params.labels\<close> is truthy the chain has a second and last element, the call
  \<open>add_labels\<close> whose parameter object is new and holds exactly \<open>labels\<close> with that value;
  otherwise (no \<open>labels\<close>, or a falsy one) the chain is that first call alone.
\<close>

theorem chain_operations_of_create_issue:
  assumes "load readFile JSON_parse = Inr state"
    and "\<exists>a b. tool c = a @ ''create_issue'' @ b"
  shows "\<exists>r h'. enforce readFile JSON_parse h c = Inr (r, h') \<and>
     enhanced r = c \<and>
     chain_operations r =
       Some (if truthy (get_param h (params c) ''labels'')
             then [enhanced r, \<lparr>tool = ''add_labels'', params = next_addr h\<rparr>]
             else [enhanced r]) \<and>
     (truthy (get_param h (params c) ''labels'') \<longrightarrow>
        objects h' (next_addr h) = [''labels'' \<mapsto> get_param h (params c) ''labels''])"
proof -
  have inc: "str_includes (tool c) ''create_issue''"
    using assms(2) by (simp add: str_includes_iff)
  have rc: "requiresChaining c"
    using assms(2) by (rule requiresChaining_create_issue)
  from enforce_loaded [OF assms(1), of h c] obtain r h'
    where r: "enforce readFile JSON_parse h c = Inr (r, h')"
      and e: "enhanced r = c"
      and ch: "chain_operations r =
             (if requiresChaining c
              then Some (fst (buildOperationChain
                     (snd (injectIdentifiers state
                        (\<lparr>original = c, enhanced = c, modifications = [],
                          enforce_pagination = None, chain_operations = None\<rparr>, h))) c))
              else None)"
    by blast
  have chain: "chain_operations r =
       Some (if truthy (get_param h (params c) ''labels'')
             then [enhanced r, \<lparr>tool = ''add_labels'', params = next_addr h\<rparr>]
             else [enhanced r])"
    using ch rc inc e
    by (simp add: buildOperationChain_frame injectIdentifiers_labels injectIdentifiers_frame)
  have obj: "truthy (get_param h (params c) ''labels'') \<longrightarrow>
        objects h' (next_addr h) = [''labels'' \<mapsto> get_param h (params c) ''labels'']"
    using enforce_new_labels_object [OF assms(1) inc _ r] by blast
  show ?thesis
    using r e chain obj by blast
qed

text \<open>The call \<open>{tool: 'create_issue', params: {labels: ['bug']}}\<close>.\<close>

theorem chain_operations_of_create_issue_witness:
  "load no_snapshot parse_W1 = Inr JNull \<and>
   (\<exists>a b. tool create_issue_call = a @ ''create_issue'' @ b) \<and>
   truthy (get_param (heap_with [''labels'' \<mapsto> JArr [JStr ''bug'']]) (params create_issue_call) ''labels'') \<and>
   (\<exists>r h'. enforce no_snapshot parse_W1 (heap_with [''labels'' \<mapsto> JArr [JStr ''bug'']]) create_issue_call
             = Inr (r, h') \<and>
       chain_operations r = Some [enhanced r, \<lparr>tool = ''add_labels'', params = 1\<rparr>] \<and>
       objects h' 1 = [''labels'' \<mapsto> JArr [JStr ''bug'']])"
proof -
  have "str_includes (tool create_issue_call) ''create_issue''"
    by (simp add: create_issue_call_def)
  then have pre: "\<exists>a b. tool create_issue_call = a @ ''create_issue'' @ b"
    by (simp only: str_includes_iff)
  have lab: "get_param (heap_with [''labels'' \<mapsto> JArr [JStr ''bug'']]) (params create_issue_call) ''labels''
               = JArr [JStr ''bug'']"
    by (simp add: get_param_def obj_get_def heap_with_def create_issue_call_def)
  have nx: "next_addr (heap_with [''labels'' \<mapsto> JArr [JStr ''bug'']]) = 1"
    by (simp add: heap_with_def)
  have tr: "truthy (get_param (heap_with [''labels'' \<mapsto> JArr [JStr ''bug'']]) (params create_issue_call) ''labels'')"
    by (simp add: lab)
  from chain_operations_of_create_issue
         [OF load_no_snapshot pre, of "heap_with [''labels'' \<mapsto> JArr [JStr ''bug'']]"]
  obtain r h'
    where E: "enforce no_snapshot parse_W1 (heap_with [''labels'' \<mapsto> JArr [JStr ''bug'']]) create_issue_call
                = Inr (r, h')"
      and C: "chain_operations r =
                Some (if truthy (get_param (heap_with [''labels'' \<mapsto> JArr [JStr ''bug'']]) (params create_issue_call) ''labels'')
                      then [enhanced r, \<lparr>tool = ''add_labels'',
                              params = next_addr (heap_with [''labels'' \<mapsto> JArr [JStr ''bug'']])\<rparr>]
                      else [enhanced r])"
      and O: "truthy (get_param (heap_with [''labels'' \<mapsto> JArr [JStr ''bug'']]) (params create_issue_call) ''labels'') \<longrightarrow>
                objects h' (next_addr (heap_with [''labels'' \<mapsto> JArr [JStr ''bug'']]))
                  = [''labels'' \<mapsto> get_param (heap_with [''labels'' \<mapsto> JArr [JStr ''bug'']]) (params create_issue_call) ''labels'']"
    by blast
  from C tr have C': "chain_operations r = Some [enhanced r, \<lparr>tool = ''add_labels'', params = 1\<rparr>]"
    by (simp add: nx)
  from O tr have O': "objects h' 1 = [''labels'' \<mapsto> JArr [JStr ''bug'']]"
    by (simp add: nx lab)
  show ?thesis
    using load_no_snapshot pre tr E C' O' by blast
qed

text \<open>
  C1 as the specification words it fails on two calls. \<open>{tool: 'create_issue', params: {}}\<close>
  gets a chain, of one element, where the specification has none; and
  \<open>{tool: 'create_issue', params: {labels: null}}\<close>, whose parameters contain a
  \<open>labels\<close> field, gets the chain of one element and not of two.
\<close>

theorem chain_operations_present_without_labels:
  "enforce no_snapshot parse_W1 (heap_with Map.empty) create_issue_call =
     Inr (\<lparr>original = create_issue_call, enhanced = create_issue_call,
           modifications = [''Operation chaining configured''],
           enforce_pagination = None, chain_operations = Some [create_issue_call]\<rparr>,
          heap_with Map.empty) \<and>
   enforce no_snapshot parse_W1 (heap_with [''labels'' \<mapsto> JNull]) create_issue_call =
     Inr (\<lparr>original = create_issue_call, enhanced = create_issue_call,
           modifications = [''Operation chaining configured''],
           enforce_pagination = None, chain_operations = Some [create_issue_call]\<rparr>,
          heap_with [''labels'' \<mapsto> JNull])"
  by (simp add: enforce_def load_no_snapshot injectIdentifiers_def inject_def Let_def
        resolveIdentifiers_noop requiresPagination_def requiresChaining_def paginationTools_def
        chainingPatterns_def create_issue_call_def buildOperationChain_def get_param_def
        obj_get_def heap_with_def)

lemma enforce_unchanged_when_specified:
  assumes ld: "load readFile JSON_parse = Inr state"
    and "startsWith (tool c) ''asana'' \<longrightarrow> truthy (get_param h (params c) ''workspace'')"
    and "startsWith (tool c) ''linear'' \<longrightarrow> truthy (get_param h (params c) ''teamId'')"
    and "startsWith (tool c) ''notion'' \<longrightarrow> truthy (get_param h (params c) ''workspace_id'')"
    and "startsWith (tool c) ''github'' \<longrightarrow> truthy (get_param h (params c) ''owner'')"
  shows "enforce readFile JSON_parse h c =
     Inr (\<lparr>original = c, enhanced = c,
           modifications = (if requiresPagination c then [''Pagination enforcement enabled''] else [])
                         @ (if requiresChaining c then [''Operation chaining configured''] else []),
           enforce_pagination = (if requiresPagination c then Some True else None),
           chain_operations = (if requiresChaining c then Some (fst (buildOperationChain h c)) else None)\<rparr>,
          if requiresChaining c then snd (buildOperationChain h c) else h)"
proof -
  have "injectIdentifiers state
          (\<lparr>original = c, enhanced = c, modifications = [],
            enforce_pagination = None, chain_operations = None\<rparr>, h)
        = (\<lparr>original = c, enhanced = c, modifications = [],
            enforce_pagination = None, chain_operations = None\<rparr>, h)"
    using assms(2-5) by (intro injectIdentifiers_skip) simp_all
  then show ?thesis
    using ld by (simp add: enforce_def Let_def resolveIdentifiers_noop split_def)
qed

text \<open>
  C4, as the code has it. Let the parameter object of a call be an object of the store and
  hold a truthy value for the identifier of the call's connector (\<open>workspace\<close> for a tool
  that starts with \<open>asana\<close>, \<open>teamId\<close> for \<open>linear\<close>, \<open>workspace_id\<close> for \<open>notion\<close>, \<open>owner\<close> for
  \<open>github\<close>). Then, for every loaded snapshot, \<open>enforce\<close> returns a result whose
  modifications contain none of the four injection entries, and the parameter object of
  \<open>enhanced\<close> is what the parameter object of the call was.
\<close>

theorem no_injection_when_identifiers_truthy:
  assumes "load readFile JSON_parse = Inr state"
    and "params c < next_addr h"
    and "startsWith (tool c) ''asana'' \<longrightarrow> truthy (get_param h (params c) ''workspace'')"
    and "startsWith (tool c) ''linear'' \<longrightarrow> truthy (get_param h (params c) ''teamId'')"
    and "startsWith (tool c) ''notion'' \<longrightarrow> truthy (get_param h (params c) ''workspace_id'')"
    and "startsWith (tool c) ''github'' \<longrightarrow> truthy (get_param h (params c) ''owner'')"
  shows "\<exists>r h'. enforce readFile JSON_parse h c = Inr (r, h') \<and>
     ''Injected Asana workspace ID'' \<notin> set (modifications r) \<and>
     ''Injected Linear team ID'' \<notin> set (modifications r) \<and>
     ''Injected Notion workspace ID'' \<notin> set (modifications r) \<and>
     ''Injected GitHub owner'' \<notin> set (modifications r) \<and>
     objects h' (params (enhanced r)) = objects h (params c)"
  unfolding enforce_unchanged_when_specified [OF assms(1) assms(3-6)]
  using assms(2) by (simp add: buildOperationChain_objects)

text \<open>An Asana call that names its workspace \<open>W7\<close>, with a snapshot that holds \<open>W1\<close>.\<close>

theorem no_injection_when_identifiers_truthy_witness:
  "load (Inr ''file'') parse_W1 = Inr snapshot_W1 \<and>
   params asana_update_call < next_addr (heap_with [''workspace'' \<mapsto> JStr ''W7'']) \<and>
   startsWith (tool asana_update_call) ''asana'' \<and>
   truthy (get_param (heap_with [''workspace'' \<mapsto> JStr ''W7'']) (params asana_update_call) ''workspace'') \<and>
   (\<exists>r h'. enforce (Inr ''file'') parse_W1 (heap_with [''workspace'' \<mapsto> JStr ''W7'']) asana_update_call
             = Inr (r, h') \<and>
       ''Injected Asana workspace ID'' \<notin> set (modifications r) \<and>
       objects h' (params (enhanced r)) = [''workspace'' \<mapsto> JStr ''W7''])"
proof -
  have a: "params asana_update_call < next_addr (heap_with [''workspace'' \<mapsto> JStr ''W7''])"
    by (simp add: asana_update_call_def heap_with_def)
  have s: "startsWith (tool asana_update_call) ''asana''"
    and nl: "\<not> startsWith (tool asana_update_call) ''linear''"
    and nn: "\<not> startsWith (tool asana_update_call) ''notion''"
    and ng: "\<not> startsWith (tool asana_update_call) ''github''"
    by (simp_all add: asana_update_call_def)
  have t: "truthy (get_param (heap_with [''workspace'' \<mapsto> JStr ''W7'']) (params asana_update_call) ''workspace'')"
    by (simp add: get_param_def obj_get_def heap_with_def asana_update_call_def)
  have o: "objects (heap_with [''workspace'' \<mapsto> JStr ''W7'']) (params asana_update_call)
             = [''workspace'' \<mapsto> JStr ''W7'']"
    by (simp add: heap_with_def asana_update_call_def)
  from no_injection_when_identifiers_truthy
         [OF load_W1 a] t nl nn ng
  obtain r h'
    where "enforce (Inr ''file'') parse_W1 (heap_with [''workspace'' \<mapsto> JStr ''W7'']) asana_update_call
             = Inr (r, h')"
      and "''Injected Asana workspace ID'' \<notin> set (modifications r)"
      and "objects h' (params (enhanced r))
             = objects (heap_with [''workspace'' \<mapsto> JStr ''W7'']) (params asana_update_call)"
    by blast
  then show ?thesis
    using load_W1 a s t o by auto
qed

text \<open>
  C4 as the specification words it fails on \<open>{tool: 'asana.update_task', params:
  {workspace: ''}}\<close>: the parameters contain \<open>workspace\<close>, and \<open>enforce\<close> records an
  injection and replaces the empty string by the workspace of the snapshot.
\<close>

theorem injection_overwrites_falsy_identifier:
  "objects (heap_with [''workspace'' \<mapsto> JStr []]) (params asana_update_call) ''workspace''
     = Some (JStr []) \<and>
   enforce (Inr ''file'') parse_W1 (heap_with [''workspace'' \<mapsto> JStr []]) asana_update_call =
     Inr (\<lparr>original = asana_update_call, enhanced = asana_update_call,
           modifications = [''Injected Asana workspace ID''],
           enforce_pagination = None, chain_operations = None\<rparr>,
          heap_with [''workspace'' \<mapsto> JStr ''W1''])"
  by (simp add: enforce_def load_W1 injectIdentifiers_def inject_def Let_def
        resolveIdentifiers_noop requiresPagination_def requiresChaining_def paginationTools_def
        chainingPatterns_def asana_update_call_def get_param_def set_param_def
        obj_get_def heap_with_def snapshot_W1_def opt_chain_def nullish_def fun_eq_iff)

text \<open>
  C2. The call \<open>{tool: 'asana.update_task', params: {}}\<close> is enforced with a snapshot that
  holds the Asana workspace \<open>W1\<close>. \<open>original\<close> is the call that was passed in, and the
  parameter object it refers to, empty before, holds \<open>workspace: 'W1'\<close> afterwards: the
  spread copies the call, not its parameters, so rule 1 writes into the caller's object.
\<close>

theorem enforce_mutates_params_of_original:
  "objects (heap_with Map.empty) (params asana_update_call) = Map.empty \<and>
   enforce (Inr ''file'') parse_W1 (heap_with Map.empty) asana_update_call =
     Inr (\<lparr>original = asana_update_call, enhanced = asana_update_call,
           modifications = [''Injected Asana workspace ID''],
           enforce_pagination = None, chain_operations = None\<rparr>,
          heap_with [''workspace'' \<mapsto> JStr ''W1''])"
  by (simp add: enforce_def load_W1 injectIdentifiers_def inject_def Let_def
        resolveIdentifiers_noop requiresPagination_def requiresChaining_def paginationTools_def
        chainingPatterns_def asana_update_call_def get_param_def set_param_def
        obj_get_def heap_with_def snapshot_W1_def opt_chain_def nullish_def fun_eq_iff)

section \<open>The snapshot store\<close>

lemma exportYAML_never_throws: "fst (exportYAML env state) = Inr ()"
  by (simp add: exportYAML_def split: option.splits sum.splits)

lemma exportYAML_logs:
  "snd (exportYAML env state) =
     (case export_write env state of
        None \<Rightarrow> [ConsoleLog ''YAML export created'']
      | Some e \<Rightarrow> [ConsoleError ''Failed to export YAML:'' e])"
  by (simp add: exportYAML_def export_write_def split: option.splits sum.splits)

lemma save_result:
  "fst (save env state) = (case primary_write env state of Some e \<Rightarrow> Inl e | None \<Rightarrow> Inr ())"
  using exportYAML_never_throws [of env state]
  by (auto simp: save_def save_try_def primary_write_def split: option.splits sum.splits prod.splits)

lemma save_console_when_saved:
  "primary_write env state = None \<Longrightarrow>
   snd (save env state) = snd (exportYAML env state) @ [ConsoleLog ''Calibration state saved'']"
  using exportYAML_never_throws [of env state]
  by (auto simp: save_def save_try_def primary_write_def split: option.splits sum.splits prod.splits)

text \<open>
  C9. For every snapshot and every behaviour of the file system, \<open>save\<close> throws the error
  \<open>e\<close> exactly when the primary write fails with \<open>e\<close>, and returns normally exactly when the
  primary write succeeds. A failure of the export changes nothing of that: when the primary
  write succeeds and the export fails with \<open>e\<close>, \<open>save\<close> returns normally and has logged
  \<open>Failed to export YAML:\<close> with \<open>e\<close>.
\<close>

theorem save_fails_iff_primary_write_fails:
  "(\<forall>e. fst (save env state) = Inl e \<longleftrightarrow> primary_write env state = Some e) \<and>
   (fst (save env state) = Inr () \<longleftrightarrow> primary_write env state = None) \<and>
   (\<forall>e. primary_write env state = None \<and> export_write env state = Some e \<longrightarrow>
        fst (save env state) = Inr () \<and>
        ConsoleError ''Failed to export YAML:'' e \<in> set (snd (save env state)))"
  by (auto simp: save_result save_console_when_saved exportYAML_logs split: option.splits)

text \<open>
  The three file systems of the examples: the YAML file cannot be written and \<open>save\<close>
  returns, with the failure logged; the JSON file cannot be written and \<open>save\<close> throws that
  error; both can be written and \<open>save\<close> returns.
\<close>

theorem save_fails_iff_primary_write_fails_witness:
  "primary_write io_yaml_fails empty_snapshot = None \<and>
   export_write io_yaml_fails empty_snapshot = Some (Error (Some ''EACCES'') ''permission denied'') \<and>
   fst (save io_yaml_fails empty_snapshot) = Inr () \<and>
   ConsoleError ''Failed to export YAML:'' (Error (Some ''EACCES'') ''permission denied'')
     \<in> set (snd (save io_yaml_fails empty_snapshot)) \<and>
   primary_write io_json_fails empty_snapshot = Some (Error (Some ''ENOSPC'') ''no space left on device'') \<and>
   fst (save io_json_fails empty_snapshot) = Inl (Error (Some ''ENOSPC'') ''no space left on device'') \<and>
   primary_write io_ok empty_snapshot = None \<and> export_write io_ok empty_snapshot = None \<and>
   fst (save io_ok empty_snapshot) = Inr ()"
proof -
  have p1: "primary_write io_yaml_fails empty_snapshot = None"
    and x1: "export_write io_yaml_fails empty_snapshot = Some (Error (Some ''EACCES'') ''permission denied'')"
    by (simp_all add: primary_write_def export_write_def io_yaml_fails_def)
  have p2: "primary_write io_json_fails empty_snapshot = Some (Error (Some ''ENOSPC'') ''no space left on device'')"
    by (simp add: primary_write_def io_json_fails_def)
  have p3: "primary_write io_ok empty_snapshot = None" and x3: "export_write io_ok empty_snapshot = None"
    by (simp_all add: primary_write_def export_write_def io_ok_def)
  from save_fails_iff_primary_write_fails [of io_yaml_fails empty_snapshot] p1 x1
  have a: "fst (save io_yaml_fails empty_snapshot) = Inr () \<and>
     ConsoleError ''Failed to export YAML:'' (Error (Some ''EACCES'') ''permission denied'')
       \<in> set (snd (save io_yaml_fails empty_snapshot))"
    by blast
  from save_fails_iff_primary_write_fails [of io_json_fails empty_snapshot] p2
  have b: "fst (save io_json_fails empty_snapshot) = Inl (Error (Some ''ENOSPC'') ''no space left on device'')"
    by blast
  from save_fails_iff_primary_write_fails [of io_ok empty_snapshot] p3
  have c: "fst (save io_ok empty_snapshot) = Inr ()"
    by blast
  show ?thesis using p1 x1 p2 p3 x3 a b c by simp
qed

section \<open>The calibrator\<close>







text \<open>The \<open>catch\<close> block throws exactly when the value caught is \<open>null\<close> or \<open>undefined\<close>.\<close>

lemma probe_catch_throws_iff:
  "probe_catch caught now = Inl e \<longleftrightarrow> nullish caught \<and> e = cannot_read caught ''message''"
  by (auto simp: probe_catch_def read_prop_def)








text \<open>\<open>Promise.all\<close> rejects with one of the rejections, and resolves when there is none.\<close>

lemma rejections_set: "e \<in> set (rejections settled ps) \<longleftrightarrow> Inl e \<in> set ps"
proof
  assume "e \<in> set (rejections settled ps)"
  then obtain i where "i < length ps" and "ps ! i = Inl e"
    by (auto simp: rejections_def List.map_filter_def split: if_splits sum.splits)
  then show "Inl e \<in> set ps"
    by (metis nth_mem)
next
  assume "Inl e \<in> set ps"
  then obtain i where i: "i < length ps" and e: "ps ! i = Inl e"
    by (auto simp: in_set_conv_nth)
  then have "i \<in> set (settled @ [0..<length ps])"
    by simp
  with i e show "e \<in> set (rejections settled ps)"
    unfolding rejections_def List.map_filter_def
    by (auto intro!: image_eqI [of _ _ i])
qed

lemma promise_all_rejected: "promise_all settled ps = Inl e \<Longrightarrow> Inl e \<in> set ps"
proof -
  assume "promise_all settled ps = Inl e"
  then have "e \<in> set (rejections settled ps)"
    by (auto simp: promise_all_def split: list.splits)
  then show ?thesis
    by (simp add: rejections_set)
qed

lemma promise_all_rejects:
  assumes "Inl e \<in> set ps"
  shows "\<exists>e'. promise_all settled ps = Inl e'"
proof -
  from assms have "rejections settled ps \<noteq> []"
    using rejections_set [of e settled ps] by auto
  then show ?thesis
    by (auto simp: promise_all_def split: list.splits)
qed

lemma rejections_none: "rejections settled (map Inr vs) = ([] :: 'e list)"
proof (cases "rejections settled (map Inr vs) :: 'e list")
  case Nil
  then show ?thesis .
next
  case (Cons e es)
  then have "e \<in> set (rejections settled (map Inr vs))"
    by simp
  then have "Inl e \<in> set (map Inr vs)"
    by (simp only: rejections_set)
  then show ?thesis
    by auto
qed

lemma resolved_values_all: "resolved_values (map Inr vs) = vs"
  by (induction vs) (simp_all add: resolved_values_def List.map_filter_simps)

lemma promise_all_resolved: "promise_all settled (map Inr vs) = Inr vs"
  by (simp add: promise_all_def rejections_none resolved_values_all)

text \<open>
  When the four probes resolve, \<open>calibrate\<close> returns the snapshot of their four statuses if
  its primary write succeeds, and otherwise throws the error of that write.
\<close>

lemma calibrate_when_probes_resolve:
  assumes "calibrateAsana cl (probe_now 0) = Inr a" and "calibrateLinear cl (probe_now 1) = Inr l"
    and "calibrateGitHub js_plus cl (probe_now 2) = Inr g" and "calibrateNotion cl (probe_now 3) = Inr n"
  shows "calibrate js_plus cl env now probe_now settled =
     (case primary_write env
             \<lparr>timestamp = now,
              connectors = \<lparr>asana = Some a, linear = Some l, github = Some g, notion = Some n\<rparr>\<rparr> of
        Some e \<Rightarrow> Inl e
      | None \<Rightarrow> Inr \<lparr>timestamp = now,
                     connectors = \<lparr>asana = Some a, linear = Some l, github = Some g, notion = Some n\<rparr>\<rparr>)"
proof -
  have "promise_all settled [Inr a, Inr l, Inr g, Inr n] = (Inr [a, l, g, n] :: js_error + ConnectorStatus list)"
    using promise_all_resolved [of settled "[a, l, g, n]"] by simp
  then show ?thesis
    using assms
    by (simp add: calibrate_def Let_def save_result no_connectors_def split: option.splits)
qed

text \<open>
  All clients reject with error objects and the snapshot can be written: \<open>calibrate\<close>
  returns the snapshot of four failed statuses.
\<close>

lemma calibrate_all_probes_fail:
  "calibrate js_plus clients_all_down io_ok ''T'' (\<lambda>n. ''T'') settled =
     Inr \<lparr>timestamp = ''T'',
          connectors = \<lparr>asana = Some (failed_status (JStr ''401 Unauthorized'') ''T''),
                        linear = Some (failed_status (JStr ''fetch failed'') ''T''),
                        github = Some (failed_status (JStr ''Bad credentials'') ''T''),
                        notion = Some (failed_status (JStr ''socket hang up'') ''T'')\<rparr>\<rparr>"
proof -
  have "calibrateAsana clients_all_down ''T'' = Inr (failed_status (JStr ''401 Unauthorized'') ''T'')"
    and "calibrateLinear clients_all_down ''T'' = Inr (failed_status (JStr ''fetch failed'') ''T'')"
    and "calibrateGitHub js_plus clients_all_down ''T'' = Inr (failed_status (JStr ''Bad credentials'') ''T'')"
    and "calibrateNotion clients_all_down ''T'' = Inr (failed_status (JStr ''socket hang up'') ''T'')"
    by (simp_all add: clients_all_down_def calibrateAsana_def calibrateAsana_try_def
          calibrateLinear_def calibrateLinear_try_def calibrateGitHub_def calibrateGitHub_try_def
          calibrateNotion_def calibrateNotion_try_def and_then_def probe_catch_def read_prop_def
          nullish_def error_object_def)
  then show ?thesis
    by (simp add: calibrate_when_probes_resolve primary_write_def io_ok_def)
qed

text \<open>
  C3. The first call of the Asana client rejects with \<open>undefined\<close>; the other clients answer or
  reject with an error object, and the file system accepts every write. The \<open>catch\<close> block
  of the Asana probe throws the \<open>TypeError\<close> of reading \<open>message\<close> of \<open>undefined\<close>, the probe
  rejects, and \<open>calibrate\<close> rejects with that error, in whatever order the probes settle: no
  snapshot is returned.
\<close>

theorem calibrate_rejects_on_undefined_rejection:
  "calibrateAsana clients_reject_undefined ''T'' = Inl (cannot_read JUndefined ''message'') \<and>
   calibrate js_plus clients_reject_undefined io_ok ''T'' (\<lambda>n. ''T'') settled
     = Inl (cannot_read JUndefined ''message'')"
proof -
  have a: "calibrateAsana clients_reject_undefined ''T'' = Inl (cannot_read JUndefined ''message'')"
    by (simp add: calibrateAsana_def calibrateAsana_try_def and_then_def clients_reject_undefined_def
          probe_catch_def read_prop_def nullish_def)
  obtain l g n where l: "calibrateLinear clients_reject_undefined ''T'' = Inr l"
    and g: "calibrateGitHub js_plus clients_reject_undefined ''T'' = Inr g"
    and n: "calibrateNotion clients_reject_undefined ''T'' = Inr n"
    by (simp add: clients_reject_undefined_def calibrateLinear_def calibrateLinear_try_def
          calibrateGitHub_def calibrateGitHub_try_def calibrateNotion_def calibrateNotion_try_def
          and_then_def probe_catch_def read_prop_def nullish_def error_object_def pick_def
          thrown_def)
  let ?ps = "[Inl (cannot_read JUndefined ''message''), Inr l, Inr g, Inr n]"
  obtain e where e: "promise_all settled ?ps = Inl e"
    using promise_all_rejects [of "cannot_read JUndefined ''message''" ?ps settled] by auto
  from promise_all_rejected [OF e] have "e = cannot_read JUndefined ''message''"
    by simp
  with e a l g n
  have "calibrate js_plus clients_reject_undefined io_ok ''T'' (\<lambda>n. ''T'') settled
          = Inl (cannot_read JUndefined ''message'')"
    by (simp add: calibrate_def Let_def)
  with a show ?thesis by simp
qed

section \<open>The health monitor: aggregation and timers\<close>

text \<open>
  C6. The snapshot built from any four connector healths holds them under the four names,
  and its \<open>overall\<close> is \<open>healthy\<close> exactly when all four statuses are \<open>healthy\<close>, \<open>degraded\<close>
  exactly when at least one is \<open>failed\<close>, and \<open>warning\<close> exactly in the remaining case (not
  all healthy, none failed).
\<close>

theorem overall_health_aggregation:
  "(overall (build_health now c0 c1 c2 c3) = O_healthy \<longleftrightarrow>
      health_status c0 = H_healthy \<and> health_status c1 = H_healthy \<and>
      health_status c2 = H_healthy \<and> health_status c3 = H_healthy) \<and>
   (overall (build_health now c0 c1 c2 c3) = O_degraded \<longleftrightarrow>
      health_status c0 = H_failed \<or> health_status c1 = H_failed \<or>
      health_status c2 = H_failed \<or> health_status c3 = H_failed) \<and>
   (overall (build_health now c0 c1 c2 c3) = O_warning \<longleftrightarrow>
      \<not> (health_status c0 = H_healthy \<and> health_status c1 = H_healthy \<and>
         health_status c2 = H_healthy \<and> health_status c3 = H_healthy) \<and>
      \<not> (health_status c0 = H_failed \<or> health_status c1 = H_failed \<or>
         health_status c2 = H_failed \<or> health_status c3 = H_failed)) \<and>
   health_connectors (build_health now c0 c1 c2 c3)
     = \<lparr>asana = Some c0, linear = Some c1, github = Some c2, notion = Some c3\<rparr>"
  by (auto simp: build_health_def Let_def determine_overall_def connector_values_def
        no_connectors_def)

text \<open>One failed connector among healthy ones; one warning among healthy ones; all healthy.\<close>

theorem overall_health_aggregation_witness:
  "overall (build_health ''T'' (health_of H_healthy) (health_of H_failed) (health_of H_healthy)
              (health_of H_healthy)) = O_degraded \<and>
   overall (build_health ''T'' (health_of H_healthy) (health_of H_healthy) (health_of H_warning)
              (health_of H_healthy)) = O_warning \<and>
   overall (build_health ''T'' (health_of H_healthy) (health_of H_healthy) (health_of H_healthy)
              (health_of H_healthy)) = O_healthy"
  using overall_health_aggregation
          [of "''T''" "health_of H_healthy" "health_of H_failed" "health_of H_healthy" "health_of H_healthy"]
        overall_health_aggregation
          [of "''T''" "health_of H_healthy" "health_of H_healthy" "health_of H_warning" "health_of H_healthy"]
        overall_health_aggregation
          [of "''T''" "health_of H_healthy" "health_of H_healthy" "health_of H_healthy" "health_of H_healthy"]
  by (simp add: health_of_def)

text \<open>The snapshot that a health-check cycle returns is built that way.\<close>

lemma runHealthCheck_snapshot:
  "runHealthCheck cl env now latency check_now = Inr h \<Longrightarrow>
   h = build_health now (checkAsana cl (latency 0) (check_now 0)) (checkLinear cl (latency 1) (check_now 1))
         (checkGitHub cl (latency 2) (check_now 2)) (checkNotion cl (latency 3) (check_now 3))"
  by (simp add: runHealthCheck_def Let_def split: sum.splits)

text \<open>\<open>start\<close> while monitoring changes nothing: no timer is added.\<close>

lemma start_while_monitoring: "monitoringActive m \<Longrightarrow> start m = m"
  by (simp add: start_def)

text \<open>
  C8. After \<open>start(); stop(); start()\<close> two timers exist, and one period later both have
  fired: four checks have been started, two of them by timers. After \<open>start(); start()\<close>
  there is one timer, which starts one check in a period.
\<close>

theorem restart_leaves_two_timers:
  "run_events [Start, Stop, Start] = \<lparr>monitoringActive = True, timers = 2, checks_started = 2\<rparr> \<and>
   run_events [Start, Stop, Start, Period] = \<lparr>monitoringActive = True, timers = 2, checks_started = 4\<rparr> \<and>
   run_events [Start, Start, Period] = \<lparr>monitoringActive = True, timers = 1, checks_started = 2\<rparr>"
  by (simp add: run_events_def new_monitor_def start_def stop_def period_def timer_callback_def
        numeral_2_eq_2)

section \<open>Pagination\<close>

lemma absorb_Inr:
  assumes "absorb response st = Inr st'"
  shows "results st' = results st @ page_items response"
    and "attempts st' = attempts st" and "calls st' = calls st" and "pages st' = pages st"
    and "is_array response \<Longrightarrow> \<not> hasMore st'"
  using assms
  by (auto simp: absorb_def page_items_def elements_def read_prop_def
           split: sum.splits if_splits)

lemma absorb_Inl: "absorb response st = Inl e \<Longrightarrow> \<not> is_array response"
  by (cases response) (auto simp: absorb_def)

lemma last_page_index:
  assumes "\<forall>p \<in> set ps. \<not> is_array p" and "i < length (ps @ [r])" and "is_array ((ps @ [r]) ! i)"
  shows "Suc i = length (ps @ [r])"
proof (cases "i < length ps")
  case True
  then have "(ps @ [r]) ! i \<in> set ps" by (simp add: nth_append)
  with assms show ?thesis by blast
next
  case False
  with assms(2) show ?thesis by simp
qed

lemma iteration_Inr:
  assumes it: "iteration exec t ps st = Inr st'" and inv: "pager_inv st" and more: "hasMore st"
  shows "pager_inv st'" and "attempts st' = Suc (attempts st)"
proof -
  obtain response where ex: "exec (attempts st) t (page_params ps (cursor st)) = Inr response"
    using it by (cases "exec (attempts st) t (page_params ps (cursor st))") (simp_all add: iteration_def)
  obtain st1
    where ab: "absorb response (st\<lparr>calls := Suc (calls st), pages := pages st @ [response]\<rparr>) = Inr st1"
    using it ex
    by (cases "absorb response (st\<lparr>calls := Suc (calls st), pages := pages st @ [response]\<rparr>)")
       (simp_all add: iteration_def)
  have st': "st' = st1\<lparr>attempts := Suc (attempts st1)\<rparr>"
    using it ex ab by (simp add: iteration_def)
  note a = absorb_Inr [OF ab]
  have r: "results st' = results st @ page_items response"
    by (simp add: st' a(1))
  have at: "attempts st' = Suc (attempts st)"
    by (simp add: st' a(2))
  have c: "calls st' = Suc (calls st)"
    by (simp add: st' a(3))
  have pg: "pages st' = pages st @ [response]"
    by (simp add: st' a(4))
  have hm: "is_array response \<Longrightarrow> \<not> hasMore st'"
    using a(5) by (simp add: st')
  from inv more have noarr: "\<forall>p \<in> set (pages st). \<not> is_array p"
    by (simp add: pager_inv_def)
  from inv have i1: "calls st = attempts st" and i2: "length (pages st) = attempts st"
    and i3: "results st = concat (map page_items (pages st))"
    by (simp_all add: pager_inv_def)
  show "attempts st' = Suc (attempts st)" by (rule at)
  have 1: "calls st' = attempts st'" by (simp add: c at i1)
  have 2: "length (pages st') = attempts st'" by (simp add: pg at i2)
  have 3: "results st' = concat (map page_items (pages st'))" by (simp add: r pg i3)
  have 4: "hasMore st' \<longrightarrow> (\<forall>p \<in> set (pages st'). \<not> is_array p)"
  proof
    assume "hasMore st'"
    with hm have "\<not> is_array response" by blast
    with noarr show "\<forall>p \<in> set (pages st'). \<not> is_array p" by (simp add: pg)
  qed
  have 5: "\<forall>i < length (pages st'). is_array (pages st' ! i) \<longrightarrow> Suc i = length (pages st')"
    unfolding pg using last_page_index [OF noarr] by blast
  show "pager_inv st'"
    unfolding pager_inv_def using 1 2 3 4 5 by blast
qed

lemma iteration_Inl:
  assumes it: "iteration exec t ps st = Inl (e, st')" and inv: "pager_inv st" and more: "hasMore st"
  shows "calls st' = Suc (attempts st)" and "length (pages st') \<le> calls st'"
    and "\<forall>p \<in> set (pages st'). \<not> is_array p"
proof -
  from inv more have noarr: "\<forall>p \<in> set (pages st). \<not> is_array p"
    and c: "calls st = attempts st" and l: "length (pages st) = attempts st"
    by (simp_all add: pager_inv_def)
  have "calls st' = Suc (attempts st) \<and> length (pages st') \<le> calls st' \<and>
        (\<forall>p \<in> set (pages st'). \<not> is_array p)"
  proof (cases "exec (attempts st) t (page_params ps (cursor st))")
    case (Inl x)
    with it have "st' = st\<lparr>calls := Suc (calls st)\<rparr>"
      by (simp add: iteration_def)
    then show ?thesis using noarr c l by simp
  next
    case (Inr response)
    show ?thesis
    proof (cases "absorb response (st\<lparr>calls := Suc (calls st), pages := pages st @ [response]\<rparr>)")
      case (Inl x)
      with it Inr have st': "st' = st\<lparr>calls := Suc (calls st), pages := pages st @ [response]\<rparr>"
        by (simp add: iteration_def)
      from Inl have "\<not> is_array response" by (rule absorb_Inl)
      then show ?thesis using noarr c l by (simp add: st')
    next
      case (Inr st1)
      with it \<open>exec (attempts st) t (page_params ps (cursor st)) = Inr response\<close>
      show ?thesis by (simp add: iteration_def)
    qed
  qed
  then show "calls st' = Suc (attempts st)" and "length (pages st') \<le> calls st'"
    and "\<forall>p \<in> set (pages st'). \<not> is_array p"
    by blast+
qed

lemma pagination_loop_post:
  "pager_inv st \<Longrightarrow> attempts st \<le> maxPaginationAttempts \<Longrightarrow> pager_post (pagination_loop exec t ps st)"
proof (induction exec t ps st rule: pagination_loop.induct)
  case (1 exec t ps st)
  show ?case
  proof (cases "hasMore st \<and> attempts st < maxPaginationAttempts")
    case False
    then have "pagination_loop exec t ps st = (Inr (results st), st)"
      by (subst pagination_loop.simps) auto
    moreover have "\<forall>i < length (pages st). is_array (pages st ! i) \<longrightarrow>
                     Suc i = length (pages st) \<and> calls st = Suc i"
      using "1.prems"(1) by (simp add: pager_inv_def)
    ultimately show ?thesis
      using "1.prems" by (simp add: pager_post_def pager_inv_def)
  next
    case True
    show ?thesis
    proof (cases "iteration exec t ps st")
      case (Inl a)
      obtain e st' where a: "a = (e, st')" by (cases a)
      with Inl have it: "iteration exec t ps st = Inl (e, st')" by simp
      from True it have "pagination_loop exec t ps st = (Inl e, st')"
        by (subst pagination_loop.simps) simp
      moreover note iteration_Inl [OF it "1.prems"(1)] 
      ultimately show ?thesis
        using True by (auto simp: pager_post_def)
    next
      case (Inr st')
      from True Inr have "pagination_loop exec t ps st = pagination_loop exec t ps st'"
        by (subst pagination_loop.simps) simp
      moreover have "pager_post (pagination_loop exec t ps st')"
        using "1.IH" [OF True Inr] iteration_Inr [OF Inr "1.prems"(1)] True by simp
      ultimately show ?thesis by simp
    qed
  qed
qed

lemma two_pages_run:
  "executeWithPagination exec_two_pages (heap_with Map.empty) create_issue_call =
    (Inr [JStr ''a'', JStr ''b'', JStr ''p2''],
     \<lparr>results = [JStr ''a'', JStr ''b'', JStr ''p2''], hasMore = False, cursor = JStr ''p2'',
      attempts = 2, calls = 2,
      pages = [JObj [(''data'', JArr [JStr ''a'']), (''next_page'', JStr ''p2'')],
               JArr [JStr ''b'', JStr ''p2'']]\<rparr>)"
  by (simp add: executeWithPagination_def pagination_loop.simps iteration_def absorb_def
        exec_two_pages_def page_params_def read_prop_def nullish_def maxPaginationAttempts_def
        heap_with_def create_issue_call_def obj_get_def numeral_2_eq_2)

text \<open>
  C10. \<open>pagination_loop\<close> is a total function: its recursion is well-founded on
  \<open>maxPaginationAttempts - attempts\<close>, so for every executor \<open>executeWithPagination\<close> ends,
  with the list or with an error thrown. When it has ended: at most 100 calls of
  \<open>executeTool\<close> were made; a response that is a plain array is the last response received and
  no call was made after it; and the list returned is the items of the responses received,
  in the order of their reception.
\<close>

theorem executeWithPagination_bounded:
  "calls (snd (executeWithPagination exec h c)) \<le> 100 \<and>
   length (pages (snd (executeWithPagination exec h c))) \<le> calls (snd (executeWithPagination exec h c)) \<and>
   (\<forall>i < length (pages (snd (executeWithPagination exec h c))).
       is_array (pages (snd (executeWithPagination exec h c)) ! i) \<longrightarrow>
         Suc i = length (pages (snd (executeWithPagination exec h c))) \<and>
         calls (snd (executeWithPagination exec h c)) = Suc i) \<and>
   (\<forall>rs. fst (executeWithPagination exec h c) = Inr rs \<longrightarrow>
       rs = concat (map page_items (pages (snd (executeWithPagination exec h c)))))"
proof -
  have "pager_post (executeWithPagination exec h c)"
    unfolding executeWithPagination_def
    by (rule pagination_loop_post) (simp_all add: pager_inv_def)
  then show ?thesis
    by (simp add: pager_post_def maxPaginationAttempts_def)
qed

text \<open>
  The executor of the example answers a page with a cursor and then an array: two calls, the
  array is the second and last response, and the list is the items of both in order.
\<close>

theorem executeWithPagination_bounded_witness:
  "1 < length (pages (snd (executeWithPagination exec_two_pages (heap_with Map.empty) create_issue_call))) \<and>
   is_array (pages (snd (executeWithPagination exec_two_pages (heap_with Map.empty) create_issue_call)) ! 1) \<and>
   calls (snd (executeWithPagination exec_two_pages (heap_with Map.empty) create_issue_call)) = 2 \<and>
   fst (executeWithPagination exec_two_pages (heap_with Map.empty) create_issue_call)
     = Inr [JStr ''a'', JStr ''b'', JStr ''p2''] \<and>
   concat (map page_items
     (pages (snd (executeWithPagination exec_two_pages (heap_with Map.empty) create_issue_call))))
     = [JStr ''a'', JStr ''b'', JStr ''p2'']"
proof -
  let ?r = "executeWithPagination exec_two_pages (heap_with Map.empty) create_issue_call"
  have len: "1 < length (pages (snd ?r))" and arr: "is_array (pages (snd ?r) ! 1)"
    and out: "fst ?r = Inr [JStr ''a'', JStr ''b'', JStr ''p2'']"
    by (simp_all add: two_pages_run)
  from executeWithPagination_bounded [of exec_two_pages "heap_with Map.empty" create_issue_call]
  have "calls (snd ?r) = Suc 1" and "concat (map page_items (pages (snd ?r))) = [JStr ''a'', JStr ''b'', JStr ''p2'']"
    using len arr out by auto
  then show ?thesis
    using len arr out by simp
qed

text \<open>With the placeholder \<open>executeTool\<close> of the source, one call is made and the list is empty.\<close>

lemma placeholder_run:
  "fst (executeWithPagination executeTool h c) = Inr [] \<and>
   calls (snd (executeWithPagination executeTool h c)) = 1"
  by (simp add: executeWithPagination_def pagination_loop.simps iteration_def absorb_def
        executeTool_def page_params_def read_prop_def nullish_def maxPaginationAttempts_def
        opt_chain_def)


end
